theory Spec2Isabelle
  imports Complex_Main "HOL-Library.Multiset" "HOL-Library.Option_ord"
begin

section \<open>Values of the traced pipeline\<close>

text \<open>
  The SDK treats inputs, outputs and candidates as opaque JavaScript values (\<^verbatim>\<open>any\<close>).
  A value is a primitive or a reference to an object; the contents of an object are never
  inspected by the SDK. HOL equality on \<open>jsval\<close> is the comparison that
  \<^verbatim>\<open>Array.prototype.includes\<close> performs: primitives by value, objects by reference,
  so two objects with the same contents at different addresses are different values.
\<close>

datatype jsval = Undefined | Null | Bool bool | Num rat | Str string | Ref nat

subsection \<open>Numbers\<close>

text \<open>
  A JavaScript number that the code computes with is an IEEE 754 double: a finite double,
  given by its exact value, an infinity or NaN. The sign of zero, which no operation of the
  code observes, is not kept.
\<close>

datatype jsnum = Finite rat | PosInfinity | NegInfinity | NaN

definition pow2 :: "int \<Rightarrow> rat" where
  "pow2 k = 2 powi k"

text \<open>The number of binary digits of a positive integer.\<close>

function bit_length :: "int \<Rightarrow> int" where
  "bit_length n = (if n \<le> 0 then 0 else 1 + bit_length (n div 2))"
  by pat_completeness auto
termination
  by (relation "measure nat") auto

text \<open>The binary exponent of a positive rational \<open>a\<close>: the \<open>e\<close> with \<open>2^e \<le> a < 2^(e+1)\<close>.\<close>

definition ilog2 :: "rat \<Rightarrow> int" where
  "ilog2 a =
     (if 1 \<le> a then bit_length \<lfloor>a\<rfloor> - 1
      else - bit_length (\<lceil>1 / a\<rceil> - 1))"

text \<open>Rounding to the nearest integer, a tie going to the even one.\<close>

definition round_half_even :: "rat \<Rightarrow> int" where
  "round_half_even x =
     (let f = \<lfloor>x\<rfloor>; d = x - of_int f
      in if d < 1 / 2 then f
         else if 1 / 2 < d then f + 1
         else if even f then f else f + 1)"

text \<open>
  The result of an arithmetic operation whose exact value is \<open>q\<close>: \<open>q\<close> rounded to the
  nearest double, a tie going to the even significand. The significand has 53 binary
  digits, below \<open>2^-1022\<close> the spacing stays \<open>2^-1074\<close>, and a result that rounds to
  \<open>2^1024\<close> or beyond is an infinity.
\<close>

definition round_to_double :: "rat \<Rightarrow> jsnum" where
  "round_to_double q =
     (if q = 0 then Finite 0
      else
        (let a = \<bar>q\<bar>;
             p = max (ilog2 a) (- 1022) - 52;
             r = of_int (round_half_even (a / pow2 p)) * pow2 p
         in if pow2 1024 \<le> r then (if q < 0 then NegInfinity else PosInfinity)
            else Finite (if q < 0 then - r else r)))"

text \<open>The double that a decimal number literal of the source denotes.\<close>

definition js_number :: "rat \<Rightarrow> jsnum" where
  "js_number q = round_to_double q"

text \<open>\<^verbatim>\<open>x * y\<close>\<close>

fun js_times :: "jsnum \<Rightarrow> jsnum \<Rightarrow> jsnum" where
  "js_times NaN y = NaN"
| "js_times x NaN = NaN"
| "js_times (Finite a) (Finite b) = round_to_double (a * b)"
| "js_times (Finite a) PosInfinity =
     (if a = 0 then NaN else if 0 < a then PosInfinity else NegInfinity)"
| "js_times (Finite a) NegInfinity =
     (if a = 0 then NaN else if 0 < a then NegInfinity else PosInfinity)"
| "js_times PosInfinity (Finite b) =
     (if b = 0 then NaN else if 0 < b then PosInfinity else NegInfinity)"
| "js_times NegInfinity (Finite b) =
     (if b = 0 then NaN else if 0 < b then NegInfinity else PosInfinity)"
| "js_times PosInfinity PosInfinity = PosInfinity"
| "js_times PosInfinity NegInfinity = NegInfinity"
| "js_times NegInfinity PosInfinity = NegInfinity"
| "js_times NegInfinity NegInfinity = PosInfinity"

text \<open>\<^verbatim>\<open>Math.ceil(x)\<close>\<close>

fun js_ceil :: "jsnum \<Rightarrow> jsnum" where
  "js_ceil (Finite q) = Finite (of_int \<lceil>q\<rceil>)"
| "js_ceil x = x"

text \<open>\<^verbatim>\<open>Math.max(x, y)\<close>: NaN when an argument is NaN.\<close>

fun js_max :: "jsnum \<Rightarrow> jsnum \<Rightarrow> jsnum" where
  "js_max NaN y = NaN"
| "js_max x NaN = NaN"
| "js_max PosInfinity y = PosInfinity"
| "js_max x PosInfinity = PosInfinity"
| "js_max NegInfinity y = y"
| "js_max x NegInfinity = x"
| "js_max (Finite a) (Finite b) = Finite (max a b)"

text \<open>
  \<^verbatim>\<open>a.length / b.length\<close> for two arrays, as in \<^verbatim>\<open>recordFiltering\<close>: the lengths are
  integers below \<open>2^32\<close> and so are doubles themselves; the quotient is rounded.
\<close>

definition js_div :: "nat \<Rightarrow> nat \<Rightarrow> jsnum" where
  "js_div a b =
     (if b = 0 then (if a = 0 then NaN else PosInfinity)
      else round_to_double (of_nat a / of_nat b))"

text \<open>\<^verbatim>\<open>1 - x\<close>\<close>

fun one_minus :: "jsnum \<Rightarrow> jsnum" where
  "one_minus (Finite q) = round_to_double (1 - q)"
| "one_minus PosInfinity = NegInfinity"
| "one_minus NegInfinity = PosInfinity"
| "one_minus NaN = NaN"

text \<open>
  \<^verbatim>\<open>xs.slice(0, end)\<close>: the end is converted to an integer by truncation, NaN becoming 0;
  a negative end counts from the end of the array, and the result is cut to the array.
\<close>

definition js_trunc :: "rat \<Rightarrow> int" where
  "js_trunc q = (if 0 \<le> q then \<lfloor>q\<rfloor> else \<lceil>q\<rceil>)"

fun slice0 :: "jsnum \<Rightarrow> 'a list \<Rightarrow> 'a list" where
  "slice0 NaN xs = []"
| "slice0 PosInfinity xs = xs"
| "slice0 NegInfinity xs = []"
| "slice0 (Finite q) xs =
     (if js_trunc q < 0 then take (nat (int (length xs) + js_trunc q)) xs
      else take (nat (js_trunc q)) xs)"

text \<open>\<^verbatim>\<open>xs.includes(c)\<close>\<close>

definition includes_js :: "'a list \<Rightarrow> 'a \<Rightarrow> bool" where
  "includes_js xs c = (c \<in> set xs)"

section \<open>The trace builder (xray-sdk/src/index.ts)\<close>

datatype step_type = Llm | Api | Filter | Rank | Transform

datatype cand_status = Accepted | Rejected | FilteredOut

datatype run_status = Running | Completed | Failed

text \<open>
  The sampling configuration. \<^verbatim>\<open>sampleRate\<close> is any number.
  \<^verbatim>\<open>keepThresholdCandidates\<close> is carried along and read by no method.
\<close>

record sampling_config =
  keepAllOutputs :: bool
  keepThresholdCandidates :: nat
  sampleRate :: jsnum

record filter_data =
  filterName :: string
  filterType :: string
  parameters :: "(string \<rightharpoonup> jsval) option"
  candidateBefore :: nat
  candidatesAfter :: nat
  eliminationRate :: jsnum

record candidate_data =
  data :: jsval
  status :: cand_status
  score :: "rat option"
  rejectionReason :: "string option"
  rejectionFilter :: "string option"

text \<open>
  Class \<^verbatim>\<open>Step\<close>. Timestamps (\<^verbatim>\<open>new Date()\<close>) are milliseconds read from a clock that
  the caller of the model supplies; identifiers (\<^verbatim>\<open>uuidV4()\<close>) are supplied likewise.
\<close>

record step =
  id :: string
  runId :: string
  stepName :: string
  stepType :: step_type
  stepIndex :: nat
  startedAt :: nat
  completedAt :: "nat option"
  input :: jsval
  output_js :: jsval
  candidatesIn :: "int option"
  candidatesOut :: "int option"
  candidates :: "candidate_data list"
  reasoning :: "string option"
  filtersApplied :: "filter_data list"
  metadata :: "(string \<rightharpoonup> jsval) option"
  sampling :: sampling_config

definition new_Step :: "string \<Rightarrow> string \<Rightarrow> string \<Rightarrow> step_type \<Rightarrow> nat \<Rightarrow> sampling_config \<Rightarrow> nat \<Rightarrow> step" where
  "new_Step uuid rid name ty idx smp now =
     \<lparr>step.id = uuid, runId = rid, stepName = name, stepType = ty, stepIndex = idx,
      step.startedAt = now, step.completedAt = None, step.input = Undefined,
      step.output_js = Undefined, candidatesIn = None, candidatesOut = None, candidates = [],
      reasoning = None, filtersApplied = [], step.metadata = None, step.sampling = smp\<rparr>"

definition tag :: "cand_status \<Rightarrow> string option \<Rightarrow> jsval \<Rightarrow> candidate_data" where
  "tag st flt c =
     \<lparr>data = c, candidate_data.status = st, score = None, rejectionReason = None,
      rejectionFilter = flt\<rparr>"

definition sampleCandidates ::
  "sampling_config \<Rightarrow> jsval list \<Rightarrow> cand_status \<Rightarrow> string option \<Rightarrow> candidate_data list" where
  "sampleCandidates cfg cs st rejFilter =
     (if st = Accepted \<and> keepAllOutputs cfg then map (tag st None) cs
      else if st = Rejected then
        (let sampleSize = js_ceil (js_times (Finite (of_nat (length cs))) (sampleRate cfg));
             sampled = slice0 (js_max sampleSize (Finite 5)) cs
         in map (tag st rejFilter) sampled)
      else map (tag st None) cs)"

definition recordInput :: "jsval \<Rightarrow> step \<Rightarrow> step" where
  "recordInput v s = s\<lparr>step.input := v\<rparr>"

definition recordOutput :: "jsval \<Rightarrow> nat \<Rightarrow> step \<Rightarrow> step" where
  "recordOutput v now s = s\<lparr>step.output_js := v, step.completedAt := Some now\<rparr>"

text \<open>The second parameter of \<^verbatim>\<open>recordCandidates\<close> defaults to \<^verbatim>\<open>"accepted"\<close> when omitted.\<close>

definition recordCandidates :: "jsval list \<Rightarrow> cand_status option \<Rightarrow> step \<Rightarrow> step" where
  "recordCandidates cs st_arg s =
     (let st = (case st_arg of None \<Rightarrow> Accepted | Some st' \<Rightarrow> st');
          sampled = sampleCandidates (step.sampling s) cs st None;
          s1 = s\<lparr>candidates := candidates s @ sampled\<rparr>
      in if st = Accepted then s1\<lparr>candidatesOut := Some (int (length cs))\<rparr> else s1)"

text \<open>The local \<^verbatim>\<open>rejected\<close> of \<^verbatim>\<open>recordFiltering\<close>, before any sampling.\<close>

definition rejected_of :: "jsval list \<Rightarrow> jsval list \<Rightarrow> jsval list" where
  "rejected_of candsIn candsOut = filter (\<lambda>c. \<not> includes_js candsOut c) candsIn"

definition filter_record ::
  "jsval list \<Rightarrow> jsval list \<Rightarrow> string \<Rightarrow> string \<Rightarrow> (string \<rightharpoonup> jsval) option \<Rightarrow> filter_data" where
  "filter_record candsIn candsOut fname ftype params =
     \<lparr>filterName = fname, filterType = ftype, parameters = params,
      candidateBefore = length candsIn, candidatesAfter = length candsOut,
      eliminationRate = one_minus (js_div (length candsOut) (length candsIn))\<rparr>"

definition recordFiltering ::
  "jsval list \<Rightarrow> jsval list \<Rightarrow> string \<Rightarrow> string \<Rightarrow> (string \<rightharpoonup> jsval) option \<Rightarrow> step \<Rightarrow> step" where
  "recordFiltering candsIn candsOut fname ftype params s =
     (let s1 = s\<lparr>candidatesIn := Some (int (length candsIn)),
                 candidatesOut := Some (int (length candsOut))\<rparr>;
          s2 = s1\<lparr>filtersApplied :=
                     filtersApplied s1 @ [filter_record candsIn candsOut fname ftype params]\<rparr>;
          rejected = rejected_of candsIn candsOut;
          rejectedSampled = sampleCandidates (step.sampling s2) rejected Rejected (Some fname);
          s3 = s2\<lparr>candidates := candidates s2 @ rejectedSampled\<rparr>;
          accepted = sampleCandidates (step.sampling s3) candsOut Accepted None
      in s3\<lparr>candidates := candidates s3 @ accepted\<rparr>)"

definition recordLLMDecision :: "string \<Rightarrow> int option \<Rightarrow> step \<Rightarrow> step" where
  "recordLLMDecision why outCount s =
     (let s1 = s\<lparr>reasoning := Some why, stepType := Llm\<rparr>
      in case outCount of None \<Rightarrow> s1 | Some n \<Rightarrow> s1\<lparr>candidatesOut := Some n\<rparr>)"

text \<open>\<^verbatim>\<open>{ ...this.metadata, ...metadata }\<close>: spreading \<^verbatim>\<open>undefined\<close> contributes no key.\<close>

definition spread :: "(string \<rightharpoonup> jsval) option \<Rightarrow> (string \<rightharpoonup> jsval)" where
  "spread m = (case m of None \<Rightarrow> Map.empty | Some f \<Rightarrow> f)"

definition setMetadata :: "(string \<rightharpoonup> jsval) \<Rightarrow> step \<Rightarrow> step" where
  "setMetadata md s = s\<lparr>step.metadata := Some (spread (step.metadata s) ++ md)\<rparr>"

text \<open>A call of \<^verbatim>\<open>recordFiltering\<close> with its five arguments, and a sequence of such calls.\<close>

record filtering_call =
  before :: "jsval list"
  after :: "jsval list"
  fname :: string
  ftype :: string
  params :: "(string \<rightharpoonup> jsval) option"

definition apply_filtering :: "step \<Rightarrow> filtering_call \<Rightarrow> step" where
  "apply_filtering s c = recordFiltering (before c) (after c) (fname c) (ftype c) (params c) s"

definition record_of_call :: "filtering_call \<Rightarrow> filter_data" where
  "record_of_call c = filter_record (before c) (after c) (fname c) (ftype c) (params c)"

text \<open>Every recording operation of a \<^verbatim>\<open>Step\<close>, as data, so that sequences of calls can be run.\<close>

datatype step_op =
    RecordInput jsval
  | RecordOutput jsval nat
  | RecordCandidates "jsval list" "cand_status option"
  | RecordFiltering filtering_call
  | RecordLLMDecision string "int option"
  | SetMetadata "string \<rightharpoonup> jsval"

fun apply_step_op :: "step_op \<Rightarrow> step \<Rightarrow> step" where
  "apply_step_op (RecordInput v) s = recordInput v s"
| "apply_step_op (RecordOutput v now) s = recordOutput v now s"
| "apply_step_op (RecordCandidates cs st) s = recordCandidates cs st s"
| "apply_step_op (RecordFiltering c) s = apply_filtering s c"
| "apply_step_op (RecordLLMDecision why n) s = recordLLMDecision why n s"
| "apply_step_op (SetMetadata md) s = setMetadata md s"

text \<open>
  The inequality between the two optional counts of a \<^verbatim>\<open>Step\<close>: it says something only
  when both counts are present.
\<close>

definition counts_ordered :: "step \<Rightarrow> bool" where
  "counts_ordered s =
     (case candidatesIn s of None \<Rightarrow> True
      | Some i \<Rightarrow> (case candidatesOut s of None \<Rightarrow> True | Some out \<Rightarrow> out \<le> i))"

text \<open>
  The size of the retained prefix of a rejected sample of \<open>n\<close> candidates:
  \<open>min n (max \<lceil>p\<rceil> 5)\<close> for the product \<open>p\<close> of \<open>n\<close> and the sample rate as the code
  computes it, with the value that this expression has for an infinite product, and 0 for
  a product that is NaN.
\<close>

definition rejected_sample_size :: "nat \<Rightarrow> jsnum \<Rightarrow> nat" where
  "rejected_sample_size n rate =
     (case js_times (Finite (of_nat n)) rate of
        Finite p \<Rightarrow> min n (nat (max \<lceil>p\<rceil> 5))
      | PosInfinity \<Rightarrow> n
      | NegInfinity \<Rightarrow> min n 5
      | NaN \<Rightarrow> 0)"

text \<open>The candidate records that a recording operation appended to a \<^verbatim>\<open>Step\<close>.\<close>

definition retained_by :: "step \<Rightarrow> step \<Rightarrow> candidate_data list" where
  "retained_by s s' = drop (length (candidates s)) (candidates s')"

subsection \<open>Runs and transport\<close>

record run_config =
  apiUrl :: "string option"
  sampling :: "sampling_config option"

record xray_sdk =
  apiUrl :: string
  sampling :: sampling_config

definition default_sampling :: sampling_config where
  "default_sampling =
     \<lparr>keepAllOutputs = True, keepThresholdCandidates = 10, sampleRate = js_number (1 / 100)\<rparr>"

text \<open>\<^verbatim>\<open>config.apiUrl || "http://localhost:3000/api"\<close>: an empty string is falsy.\<close>

definition new_XRaySDK :: "run_config \<Rightarrow> xray_sdk" where
  "new_XRaySDK config =
     \<lparr>xray_sdk.apiUrl =
        (case run_config.apiUrl config of None \<Rightarrow> ''http://localhost:3000/api''
         | Some u \<Rightarrow> if u = [] then ''http://localhost:3000/api'' else u),
      xray_sdk.sampling =
        (case run_config.sampling config of None \<Rightarrow> default_sampling | Some smp \<Rightarrow> smp)\<rparr>"

record run =
  id :: string
  pipelineName :: string
  input :: jsval
  output_js :: jsval
  steps :: "step list"
  startedAt :: nat
  completedAt :: "nat option"
  status :: run_status
  apiUrl :: string
  sampling :: sampling_config
  metadata :: "(string \<rightharpoonup> jsval) option"

definition new_Run ::
  "string \<Rightarrow> string \<Rightarrow> jsval \<Rightarrow> string \<Rightarrow> sampling_config \<Rightarrow> (string \<rightharpoonup> jsval) option \<Rightarrow> nat \<Rightarrow> run" where
  "new_Run uuid name inp url smp md now =
     \<lparr>run.id = uuid, pipelineName = name, run.input = inp, run.output_js = Undefined,
      steps = [], run.startedAt = now, run.completedAt = None, run.status = Running,
      run.apiUrl = url, run.sampling = smp, run.metadata = md\<rparr>"

definition startRun ::
  "xray_sdk \<Rightarrow> string \<Rightarrow> jsval \<Rightarrow> (string \<rightharpoonup> jsval) option \<Rightarrow> string \<Rightarrow> nat \<Rightarrow> run" where
  "startRun sdk name inp md uuid now =
     new_Run uuid name inp (xray_sdk.apiUrl sdk) (xray_sdk.sampling sdk) md now"

text \<open>
  \<^verbatim>\<open>addStep\<close> appends the new \<^verbatim>\<open>Step\<close> and returns it; the caller's handle on it is its
  position in \<^verbatim>\<open>steps\<close>, through which \<open>on_step\<close> applies a recording operation to the
  object that the run holds. The step type defaults to \<^verbatim>\<open>"transform"\<close>.
\<close>

definition addStep :: "string \<Rightarrow> step_type option \<Rightarrow> string \<Rightarrow> nat \<Rightarrow> run \<Rightarrow> run" where
  "addStep name ty uuid now r =
     (let st = new_Step uuid (run.id r) name (case ty of None \<Rightarrow> Transform | Some t \<Rightarrow> t)
                 (length (steps r)) (run.sampling r) now
      in r\<lparr>steps := steps r @ [st]\<rparr>)"

definition on_step :: "nat \<Rightarrow> step_op \<Rightarrow> run \<Rightarrow> run" where
  "on_step i op r =
     (if i < length (steps r) then r\<lparr>steps := (steps r)[i := apply_step_op op (steps r ! i)]\<rparr>
      else r)"

text \<open>
  What the pipeline's process can observe of the transport: the lines written with
  \<^verbatim>\<open>console.error\<close>, and the requests handed to \<^verbatim>\<open>fetch\<close> whose promise has not
  settled yet. A thrown JavaScript exception is a value of type \<open>exn\<close>.
\<close>

datatype exn = Thrown string

record request =
  url :: string
  body :: string

record world =
  console :: "string list"
  in_flight :: "request list"

text \<open>
  \<^verbatim>\<open>Run.send\<close>. Its parameter \<open>stringify\<close> is \<^verbatim>\<open>JSON.stringify\<close> applied to the payload
  object built from the run (its own fields, and \<^verbatim>\<open>toJSON()\<close> of every step): it throws on
  a value that cannot be serialized. \<open>send_try\<close> is the body of the \<^verbatim>\<open>try\<close> block: the
  promise that \<^verbatim>\<open>fetch\<close> returns is not awaited, so the block ends with the request in
  flight. \<open>send\<close> adds the \<^verbatim>\<open>catch\<close> clause.
\<close>

definition send_try :: "(run \<Rightarrow> exn + string) \<Rightarrow> run \<Rightarrow> world \<Rightarrow> exn + world" where
  "send_try stringify r w =
     (case stringify r of
        Inl e \<Rightarrow> Inl e
      | Inr text \<Rightarrow> Inr (w\<lparr>in_flight := in_flight w @ [\<lparr>url = run.apiUrl r @ ''/runs'', body = text\<rparr>]\<rparr>))"

definition send :: "(run \<Rightarrow> exn + string) \<Rightarrow> run \<Rightarrow> world \<Rightarrow> exn + world" where
  "send stringify r w =
     (case send_try stringify r w of
        Inl (Thrown msg) \<Rightarrow> Inr (w\<lparr>console := console w @ [''Error sending trace '' @ msg]\<rparr>)
      | Inr w' \<Rightarrow> Inr w')"

text \<open>
  How the promise of a request in flight settles, in a later turn of the event loop: it
  resolves with the HTTP status of the response, or rejects (network error, timeout).
  \<open>settle\<close> runs the \<^verbatim>\<open>.catch\<close> handler attached in \<^verbatim>\<open>send\<close> on the oldest request.
\<close>

datatype outcome = Resolved nat | RejectedWith string

definition settle :: "outcome \<Rightarrow> world \<Rightarrow> world" where
  "settle oc w =
     (case in_flight w of
        [] \<Rightarrow> w
      | rq # rest \<Rightarrow>
          (case oc of
             Resolved code \<Rightarrow> w\<lparr>in_flight := rest\<rparr>
           | RejectedWith msg \<Rightarrow>
               w\<lparr>console := console w @ [''FAILED TO SEND TRACE '' @ msg], in_flight := rest\<rparr>))"

text \<open>
  \<^verbatim>\<open>complete\<close> and \<^verbatim>\<open>fail\<close> assign to the fields of the run and then call \<^verbatim>\<open>send\<close>;
  \<open>completed_run\<close> and \<open>failed_run\<close> are the assignments.
\<close>

definition completed_run :: "jsval \<Rightarrow> nat \<Rightarrow> run \<Rightarrow> run" where
  "completed_run out now r =
     r\<lparr>run.output_js := out, run.completedAt := Some now, run.status := Completed\<rparr>"

definition complete ::
  "(run \<Rightarrow> exn + string) \<Rightarrow> jsval \<Rightarrow> nat \<Rightarrow> run \<times> world \<Rightarrow> exn + run \<times> world" where
  "complete stringify out now rw =
     (case send stringify (completed_run out now (fst rw)) (snd rw) of
        Inl e \<Rightarrow> Inl e
      | Inr w' \<Rightarrow> Inr (completed_run out now (fst rw), w'))"

text \<open>The argument of \<^verbatim>\<open>fail\<close> is an \<^verbatim>\<open>Error\<close>; only its \<^verbatim>\<open>message\<close> is read.\<close>

definition failed_run :: "string \<Rightarrow> nat \<Rightarrow> run \<Rightarrow> run" where
  "failed_run message now r =
     r\<lparr>run.completedAt := Some now, run.status := Failed,
       run.metadata := Some ((spread (run.metadata r))(''error'' \<mapsto> Str message))\<rparr>"

definition fail ::
  "(run \<Rightarrow> exn + string) \<Rightarrow> string \<Rightarrow> nat \<Rightarrow> run \<times> world \<Rightarrow> exn + run \<times> world" where
  "fail stringify message now rw =
     (case send stringify (failed_run message now (fst rw)) (snd rw) of
        Inl e \<Rightarrow> Inl e
      | Inr w' \<Rightarrow> Inr (failed_run message now (fst rw), w'))"

text \<open>The operations of a \<^verbatim>\<open>Run\<close> as data, and the run of a sequence of them.\<close>

datatype run_op =
    AddStep string "step_type option" string nat
  | OnStep nat step_op
  | Complete jsval nat
  | Fail string nat

fun apply_run_op :: "(run \<Rightarrow> exn + string) \<Rightarrow> run_op \<Rightarrow> run \<times> world \<Rightarrow> exn + run \<times> world" where
  "apply_run_op stringify (AddStep name ty uuid now) rw = Inr (addStep name ty uuid now (fst rw), snd rw)"
| "apply_run_op stringify (OnStep i op) rw = Inr (on_step i op (fst rw), snd rw)"
| "apply_run_op stringify (Complete out now) rw = complete stringify out now rw"
| "apply_run_op stringify (Fail message now) rw = fail stringify message now rw"

fun run_ops :: "(run \<Rightarrow> exn + string) \<Rightarrow> run_op list \<Rightarrow> run \<times> world \<Rightarrow> exn + run \<times> world" where
  "run_ops stringify [] rw = Inr rw"
| "run_ops stringify (op # ops) rw =
     (case apply_run_op stringify op rw of Inl e \<Rightarrow> Inl e | Inr rw' \<Rightarrow> run_ops stringify ops rw')"

text \<open>The status and completion timestamp that a result carries, when the call returned.\<close>

definition lifecycle :: "exn + run \<times> world \<Rightarrow> (run_status \<times> nat option) option" where
  "lifecycle res =
     (case res of Inl e \<Rightarrow> None | Inr rw \<Rightarrow> Some (run.status (fst rw), run.completedAt (fst rw)))"

fun is_transition :: "run_op \<Rightarrow> bool" where
  "is_transition (Complete out now) = True"
| "is_transition (Fail message now) = True"
| "is_transition op = False"

section \<open>The ingestion and query service (xray-api, routes/runs.ts)\<close>

subsection \<open>Request bodies\<close>

text \<open>
  A request body is parsed JSON. An object is read through its properties, and a property
  that is absent reads as \<^verbatim>\<open>undefined\<close>; the arrays \<^verbatim>\<open>steps\<close> of a run and
  \<^verbatim>\<open>candidates\<close> of a step are optional (interfaces \<^verbatim>\<open>Run\<close>, \<^verbatim>\<open>Step\<close>, \<^verbatim>\<open>Candidate\<close>).
\<close>

datatype cand_json = CandJson "string \<rightharpoonup> jsval"

datatype step_json = StepJson "string \<rightharpoonup> jsval" "cand_json list option"

datatype run_json = RunJson "string \<rightharpoonup> jsval" "step_json list option"

definition property :: "(string \<rightharpoonup> jsval) \<Rightarrow> string \<Rightarrow> jsval" where
  "property ob k = (case ob k of None \<Rightarrow> Undefined | Some v \<Rightarrow> v)"

fun cand_props :: "cand_json \<Rightarrow> (string \<rightharpoonup> jsval)" where
  "cand_props (CandJson obj) = obj"

fun step_props :: "step_json \<Rightarrow> (string \<rightharpoonup> jsval)" where
  "step_props (StepJson obj cs) = obj"

fun step_candidates :: "step_json \<Rightarrow> cand_json list option" where
  "step_candidates (StepJson obj cs) = cs"

fun run_props :: "run_json \<Rightarrow> (string \<rightharpoonup> jsval)" where
  "run_props (RunJson obj sts) = obj"

fun run_steps :: "run_json \<Rightarrow> step_json list option" where
  "run_steps (RunJson obj sts) = sts"

text \<open>JavaScript truthiness, as \<^verbatim>\<open>v ? a : b\<close> tests it.\<close>

fun truthy :: "jsval \<Rightarrow> bool" where
  "truthy Undefined = False"
| "truthy Null = False"
| "truthy (Bool b) = b"
| "truthy (Num q) = (q \<noteq> 0)"
| "truthy (Str s) = (s \<noteq> [])"
| "truthy (Ref a) = True"

text \<open>
  A parameter bound to a statement: a value passed as it is, or the JSON text of a value.
  \<^verbatim>\<open>JSON.stringify(undefined)\<close> is \<^verbatim>\<open>undefined\<close>, not a text.
\<close>

datatype param = Raw jsval | JsonText jsval

definition json_stringify :: "jsval \<Rightarrow> param" where
  "json_stringify v = (if v = Undefined then Raw Undefined else JsonText v)"

text \<open>\<^verbatim>\<open>v ? JSON.stringify(v) : null\<close>\<close>

definition stringify_or_null :: "jsval \<Rightarrow> param" where
  "stringify_or_null v = (if truthy v then json_stringify v else Raw Null)"

subsection \<open>The store, as one client sees it\<close>

text \<open>
  The store holds the committed rows, which every client sees, and the open transaction of
  this client, if any: the rows as the transaction sees them, its own inserts included. It
  also remembers the statements it received. Whether an \<^verbatim>\<open>INSERT\<close> is refused (a
  constraint of the schema, a malformed value), and with which message, is decided by the
  store: \<open>refuses rows row\<close> is the message of the error raised when \<open>row\<close> is inserted with
  \<open>rows\<close> in view. \<^verbatim>\<open>BEGIN\<close>, \<^verbatim>\<open>COMMIT\<close> and \<^verbatim>\<open>ROLLBACK\<close> themselves succeed.
\<close>

datatype table = Runs | Steps | Candidates

type_synonym row = "table \<times> param list"

datatype stmt = BEGIN | INSERT table "param list" | COMMIT | ROLLBACK

record store =
  visible :: "row list"
  tx :: "row list option"
  received :: "stmt list"

text \<open>
  \<^verbatim>\<open>client.query\<close>: the first component of the result is the message of the error thrown,
  if one is. Outside a transaction an \<^verbatim>\<open>INSERT\<close> commits by itself.
\<close>

fun query :: "(row list \<Rightarrow> row \<Rightarrow> string option) \<Rightarrow> stmt \<Rightarrow> store \<Rightarrow> string option \<times> store" where
  "query refuses BEGIN s =
     (None, s\<lparr>tx := Some (case tx s of None \<Rightarrow> visible s | Some rows \<Rightarrow> rows),
              received := received s @ [BEGIN]\<rparr>)"
| "query refuses (INSERT t ps) s =
     (case tx s of
        None \<Rightarrow>
          (case refuses (visible s) (t, ps) of
             Some msg \<Rightarrow> (Some msg, s\<lparr>received := received s @ [INSERT t ps]\<rparr>)
           | None \<Rightarrow>
               (None, s\<lparr>visible := visible s @ [(t, ps)],
                        received := received s @ [INSERT t ps]\<rparr>))
      | Some rows \<Rightarrow>
          (case refuses rows (t, ps) of
             Some msg \<Rightarrow> (Some msg, s\<lparr>received := received s @ [INSERT t ps]\<rparr>)
           | None \<Rightarrow>
               (None, s\<lparr>tx := Some (rows @ [(t, ps)]),
                        received := received s @ [INSERT t ps]\<rparr>)))"
| "query refuses COMMIT s =
     (None, s\<lparr>visible := (case tx s of None \<Rightarrow> visible s | Some rows \<Rightarrow> rows), tx := None,
              received := received s @ [COMMIT]\<rparr>)"
| "query refuses ROLLBACK s = (None, s\<lparr>tx := None, received := received s @ [ROLLBACK]\<rparr>)"

subsection \<open>Tables and answers\<close>

text \<open>
  The rows of the tables \<^verbatim>\<open>runs\<close> and \<^verbatim>\<open>steps\<close> as a query reads them, with the columns
  and the nullability that schema.sql declares (a timestamp is a number of milliseconds),
  and the rows that the elimination query returns.
\<close>

record run_row =
  id :: string
  pipeline_name :: string
  status :: string
  started_at :: int
  completed_at :: "int option"
  input :: "jsval option"
  output_js :: "jsval option"
  metadata :: "jsval option"
  created_at :: int

record step_row =
  id :: string
  run_id :: string
  step_name :: string
  step_type :: string
  step_index :: int
  started_at :: int
  completed_at :: "int option"
  duration_ms :: "int option"
  input :: "jsval option"
  output_js :: "jsval option"
  candidates_in :: "int option"
  candidates_out :: "int option"
  reasoning :: "string option"
  filters_applied :: "jsval option"
  metadata :: "jsval option"
  created_at :: int

record elim_row =
  run_id :: string
  pipeline_name :: string
  started_at :: int
  step_name :: string
  step_type :: string
  candidates_in :: "int option"
  candidates_out :: "int option"
  elimination_rate :: "rat option"
  filters_applied :: "jsval option"

text \<open>
  What a handler answers: the HTTP status and the JSON body. \<open>RunRecorded id\<close> is
  \<^verbatim>\<open>{success: true, message, runId: id}\<close>, \<open>ErrorBody msg\<close> is
  \<^verbatim>\<open>{success: false, error: msg}\<close>, and \<open>StepRows\<close> and \<open>RunRows\<close> are
  \<^verbatim>\<open>{success: true, data: rows}\<close>.
\<close>

datatype payload =
    RunRecorded jsval
  | ErrorBody string
  | StepRows "elim_row list"
  | RunRows "run_row list"

datatype response = Response nat payload

subsection \<open>\<^verbatim>\<open>POST /runs\<close>\<close>

definition run_params :: "run_json \<Rightarrow> param list" where
  "run_params run =
     [Raw (property (run_props run) ''id''),
      Raw (property (run_props run) ''pipelineName''),
      Raw (property (run_props run) ''status''),
      Raw (property (run_props run) ''startedAt''),
      Raw (property (run_props run) ''completedAt''),
      json_stringify (property (run_props run) ''input''),
      stringify_or_null (property (run_props run) ''output''),
      stringify_or_null (property (run_props run) ''metadata'')]"

definition step_params :: "run_json \<Rightarrow> step_json \<Rightarrow> param list" where
  "step_params run step =
     [Raw (property (step_props step) ''id''),
      Raw (property (run_props run) ''id''),
      Raw (property (step_props step) ''stepName''),
      Raw (property (step_props step) ''stepType''),
      Raw (property (step_props step) ''stepIndex''),
      Raw (property (step_props step) ''startedAt''),
      Raw (property (step_props step) ''completedAt''),
      Raw (property (step_props step) ''durationMs''),
      stringify_or_null (property (step_props step) ''input''),
      stringify_or_null (property (step_props step) ''output''),
      Raw (property (step_props step) ''candidatesIn''),
      Raw (property (step_props step) ''candidatesOut''),
      Raw (property (step_props step) ''reasoning''),
      stringify_or_null (property (step_props step) ''filtersApplied''),
      stringify_or_null (property (step_props step) ''metadata'')]"

definition candidate_params :: "step_json \<Rightarrow> cand_json \<Rightarrow> param list" where
  "candidate_params step candidate =
     [Raw (property (step_props step) ''id''),
      json_stringify (property (cand_props candidate) ''data''),
      Raw (property (cand_props candidate) ''status''),
      Raw (property (cand_props candidate) ''score''),
      Raw (property (cand_props candidate) ''reason''),
      Raw (property (cand_props candidate) ''rejectionReason''),
      Raw (property (cand_props candidate) ''rejectionFilter'')]"

text \<open>The inner loop, over the candidates of one step; it stops at the first error.\<close>

fun insert_candidates ::
  "(row list \<Rightarrow> row \<Rightarrow> string option) \<Rightarrow> step_json \<Rightarrow> cand_json list \<Rightarrow> store \<Rightarrow> string option \<times> store" where
  "insert_candidates refuses step [] s = (None, s)"
| "insert_candidates refuses step (candidate # rest) s =
     (case query refuses (INSERT Candidates (candidate_params step candidate)) s of
        (Some msg, s') \<Rightarrow> (Some msg, s')
      | (None, s') \<Rightarrow> insert_candidates refuses step rest s')"

text \<open>The outer loop, over the steps: the row of the step, then the rows of its candidates.\<close>

fun insert_steps ::
  "(row list \<Rightarrow> row \<Rightarrow> string option) \<Rightarrow> run_json \<Rightarrow> step_json list \<Rightarrow> store \<Rightarrow> string option \<times> store" where
  "insert_steps refuses run [] s = (None, s)"
| "insert_steps refuses run (step # rest) s =
     (case query refuses (INSERT Steps (step_params run step)) s of
        (Some msg, s1) \<Rightarrow> (Some msg, s1)
      | (None, s1) \<Rightarrow>
          (case (case step_candidates step of
                   None \<Rightarrow> (None, s1)
                 | Some cs \<Rightarrow> insert_candidates refuses step cs s1) of
             (Some msg, s2) \<Rightarrow> (Some msg, s2)
           | (None, s2) \<Rightarrow> insert_steps refuses run rest s2))"

text \<open>
  The body of the \<^verbatim>\<open>try\<close> block of the handler, up to and including \<^verbatim>\<open>COMMIT\<close>, and the
  handler with its \<^verbatim>\<open>catch\<close> clause. The errors of the store are \<^verbatim>\<open>Error\<close> objects, so the
  body of the answer carries their message.
\<close>

definition post_runs_try ::
  "(row list \<Rightarrow> row \<Rightarrow> string option) \<Rightarrow> run_json \<Rightarrow> store \<Rightarrow> string option \<times> store" where
  "post_runs_try refuses run s =
     (case query refuses BEGIN s of
        (Some msg, s0) \<Rightarrow> (Some msg, s0)
      | (None, s0) \<Rightarrow>
          (case query refuses (INSERT Runs (run_params run)) s0 of
             (Some msg, s1) \<Rightarrow> (Some msg, s1)
           | (None, s1) \<Rightarrow>
               (case (case run_steps run of
                        None \<Rightarrow> (None, s1)
                      | Some sts \<Rightarrow> insert_steps refuses run sts s1) of
                  (Some msg, s2) \<Rightarrow> (Some msg, s2)
                | (None, s2) \<Rightarrow> query refuses COMMIT s2)))"

definition post_runs ::
  "(row list \<Rightarrow> row \<Rightarrow> string option) \<Rightarrow> run_json \<Rightarrow> store \<Rightarrow> response \<times> store" where
  "post_runs refuses run s =
     (case post_runs_try refuses run s of
        (None, s') \<Rightarrow> (Response 201 (RunRecorded (property (run_props run) ''id'')), s')
      | (Some msg, s') \<Rightarrow> (Response 500 (ErrorBody msg), snd (query refuses ROLLBACK s')))"

text \<open>
  The rows of a run in the order of the claim: the row of the run, then for each step of the
  body, in the order of the array, its row followed by the rows of its candidates.
\<close>

definition rows_of_step :: "run_json \<Rightarrow> step_json \<Rightarrow> row list" where
  "rows_of_step run step =
     (Steps, step_params run step) #
     map (\<lambda>c. (Candidates, candidate_params step c))
       (case step_candidates step of None \<Rightarrow> [] | Some cs \<Rightarrow> cs)"

definition rows_of :: "run_json \<Rightarrow> row list" where
  "rows_of run =
     (Runs, run_params run) #
     concat (map (rows_of_step run) (case run_steps run of None \<Rightarrow> [] | Some sts \<Rightarrow> sts))"

text \<open>
  The store's verdict on a sequence of inserts made one after the other, each seeing the
  rows before it: the message of the first one refused, or none.
\<close>

fun first_refusal :: "(row list \<Rightarrow> row \<Rightarrow> string option) \<Rightarrow> row list \<Rightarrow> row list \<Rightarrow> string option" where
  "first_refusal refuses rows [] = None"
| "first_refusal refuses rows (x # xs) =
     (case refuses rows x of Some msg \<Rightarrow> Some msg | None \<Rightarrow> first_refusal refuses (rows @ [x]) xs)"

text \<open>The inserts that reach the store: all up to and including the first one refused.\<close>

fun attempted :: "(row list \<Rightarrow> row \<Rightarrow> string option) \<Rightarrow> row list \<Rightarrow> row list \<Rightarrow> row list" where
  "attempted refuses rows [] = []"
| "attempted refuses rows (x # xs) =
     (case refuses rows x of Some msg \<Rightarrow> [x] | None \<Rightarrow> x # attempted refuses (rows @ [x]) xs)"

definition insert_stmt :: "row \<Rightarrow> stmt" where
  "insert_stmt x = INSERT (fst x) (snd x)"

subsection \<open>\<^verbatim>\<open>POST /runs/query\<close>\<close>

text \<open>
  The two tables that the queries read, with the columns and nullability of schema.sql.
  Arithmetic on \<^verbatim>\<open>float\<close> is exact. The conjuncts of a \<^verbatim>\<open>WHERE\<close> clause are evaluated in
  the order written, and a row is dropped at the first conjunct that is not true; a
  comparison or an arithmetic operation with a \<^verbatim>\<open>NULL\<close> operand is \<^verbatim>\<open>NULL\<close>, and a division
  by zero is an error of the statement.
\<close>

text \<open>\<^verbatim>\<open>s.candidates_in > 0\<close>\<close>

definition in_positive :: "step_row \<Rightarrow> bool option" where
  "in_positive s = map_option (\<lambda>n. 0 < n) (step_row.candidates_in s)"

text \<open>\<^verbatim>\<open>(1.0 - s.candidates_out::float / s.candidates_in)\<close>\<close>

definition rate_unguarded :: "step_row \<Rightarrow> string + rat option" where
  "rate_unguarded s =
     (case step_row.candidates_out s of
        None \<Rightarrow> Inr None
      | Some co \<Rightarrow>
          (case step_row.candidates_in s of
             None \<Rightarrow> Inr None
           | Some ci \<Rightarrow>
               if ci = 0 then Inl ''division by zero''
               else Inr (Some (1 - of_int co / of_int ci))))"

text \<open>\<^verbatim>\<open>(1.0 - s.candidates_out::float / NULLIF(s.candidates_in, 0))\<close>\<close>

definition nullif :: "int option \<Rightarrow> int \<Rightarrow> int option" where
  "nullif x y = (if x = Some y then None else x)"

definition rate_nullif :: "step_row \<Rightarrow> rat option" where
  "rate_nullif s =
     (case step_row.candidates_out s of
        None \<Rightarrow> None
      | Some co \<Rightarrow>
          (case nullif (step_row.candidates_in s) 0 of
             None \<Rightarrow> None
           | Some ci \<Rightarrow> Some (1 - of_int co / of_int ci)))"

definition elim_where :: "rat \<Rightarrow> step_row \<Rightarrow> string + bool" where
  "elim_where t s =
     (if in_positive s = Some True then
        (case rate_unguarded s of
           Inl e \<Rightarrow> Inl e
         | Inr None \<Rightarrow> Inr False
         | Inr (Some q) \<Rightarrow> Inr (t \<le> q))
      else Inr False)"

fun select_where :: "('a \<Rightarrow> string + bool) \<Rightarrow> 'a list \<Rightarrow> string + 'a list" where
  "select_where p [] = Inr []"
| "select_where p (x # xs) =
     (case p x of
        Inl e \<Rightarrow> Inl e
      | Inr b \<Rightarrow>
          (case select_where p xs of
             Inl e \<Rightarrow> Inl e
           | Inr ys \<Rightarrow> Inr (if b then x # ys else ys)))"

text \<open>\<^verbatim>\<open>FROM runs r JOIN steps s ON r.id = s.run_id\<close>\<close>

definition joined :: "run_row list \<Rightarrow> step_row list \<Rightarrow> (run_row \<times> step_row) list" where
  "joined runs stps =
     concat (map (\<lambda>r. map (Pair r) (filter (\<lambda>s. run_row.id r = step_row.run_id s) stps)) runs)"

definition elim_select :: "run_row \<times> step_row \<Rightarrow> elim_row" where
  "elim_select rs =
     \<lparr>elim_row.run_id = run_row.id (fst rs),
      elim_row.pipeline_name = run_row.pipeline_name (fst rs),
      elim_row.started_at = run_row.started_at (fst rs),
      elim_row.step_name = step_row.step_name (snd rs),
      elim_row.step_type = step_row.step_type (snd rs),
      elim_row.candidates_in = step_row.candidates_in (snd rs),
      elim_row.candidates_out = step_row.candidates_out (snd rs),
      elimination_rate = rate_nullif (snd rs),
      elim_row.filters_applied = step_row.filters_applied (snd rs)\<rparr>"

text \<open>
  \<^verbatim>\<open>ORDER BY elimination_rate DESC\<close>: descending, and \<^verbatim>\<open>NULL\<close> before every number. The
  order among rows of equal rate is the store's choice; the model keeps them in the order
  of the join.
\<close>

definition desc_key :: "elim_row \<Rightarrow> rat option" where
  "desc_key x = map_option uminus (elimination_rate x)"

definition elimination_query :: "rat \<Rightarrow> run_row list \<Rightarrow> step_row list \<Rightarrow> string + elim_row list" where
  "elimination_query t runs stps =
     (case select_where (\<lambda>rs. elim_where t (snd rs)) (joined runs stps) of
        Inl e \<Rightarrow> Inl e
      | Inr rss \<Rightarrow> Inr (take 100 (sort_key desc_key (map elim_select rss))))"

text \<open>\<^verbatim>\<open>SELECT * FROM runs ORDER BY started_at DESC LIMIT 50\<close>\<close>

definition recent_runs :: "run_row list \<Rightarrow> run_row list" where
  "recent_runs runs = take 50 (sort_key (\<lambda>r. - run_row.started_at r) runs)"

text \<open>
  The handler. \<^verbatim>\<open>minEliminationRate\<close> is a number or absent; an error of the statement is
  caught and answered with status 500.
\<close>

definition post_runs_query :: "rat option \<Rightarrow> run_row list \<Rightarrow> step_row list \<Rightarrow> response" where
  "post_runs_query minEliminationRate runs stps =
     (case minEliminationRate of
        Some t \<Rightarrow>
          (case elimination_query t runs stps of
             Inl e \<Rightarrow> Response 500 (ErrorBody e)
           | Inr rows \<Rightarrow> Response 200 (StepRows rows))
      | None \<Rightarrow> Response 200 (RunRows (recent_runs runs)))"

text \<open>
  The condition of the claim on a step: both counts present, \<^verbatim>\<open>candidatesIn > 0\<close>, and
  \<open>1 - candidatesOut / candidatesIn\<close> at least the threshold; and the rate of such a step.
\<close>

definition meets :: "rat \<Rightarrow> step_row \<Rightarrow> bool" where
  "meets t s =
     (case step_row.candidates_in s of
        None \<Rightarrow> False
      | Some ci \<Rightarrow>
          (case step_row.candidates_out s of
             None \<Rightarrow> False
           | Some co \<Rightarrow> 0 < ci \<and> t \<le> 1 - of_int co / of_int ci))"

definition matching :: "rat \<Rightarrow> run_row list \<Rightarrow> step_row list \<Rightarrow> elim_row list" where
  "matching t runs stps = map elim_select (filter (\<lambda>rs. meets t (snd rs)) (joined runs stps))"

subsection \<open>Concrete values used in the examples\<close>

definition demo_step :: step where
  "demo_step = new_Step ''step-1'' ''run-1'' ''filter_price'' Filter 0 default_sampling 1000"

definition demo_call :: "jsval list \<Rightarrow> jsval list \<Rightarrow> string \<Rightarrow> filtering_call" where
  "demo_call b a fn = \<lparr>before = b, after = a, fname = fn, ftype = ''range'', params = None\<rparr>"

definition demo_run :: run where
  "demo_run =
     startRun (new_XRaySDK \<lparr>run_config.apiUrl = None, run_config.sampling = None\<rparr>)
       ''competitor_selection'' (Ref 0) None ''run-1'' 1000"

definition quiet :: world where
  "quiet = \<lparr>console = [], in_flight = []\<rparr>"

definition stringify_ok :: "run \<Rightarrow> exn + string" where
  "stringify_ok r = Inr (''{id:'' @ run.id r @ ''}'')"

definition stringify_circular :: "run \<Rightarrow> exn + string" where
  "stringify_circular r = Inl (Thrown ''TypeError: Converting circular structure to JSON'')"

text \<open>Whether a count would not exceed the \<^verbatim>\<open>candidatesIn\<close> of a step, where that is present.\<close>

definition fits :: "int \<Rightarrow> step \<Rightarrow> bool" where
  "fits k s = (case candidatesIn s of None \<Rightarrow> True | Some i \<Rightarrow> k \<le> i)"

text \<open>
  A sequence of inserts sent one after the other, stopping at the first error: the shape
  that the two loops of the handler have together.
\<close>

fun ins_all :: "(row list \<Rightarrow> row \<Rightarrow> string option) \<Rightarrow> row list \<Rightarrow> store \<Rightarrow> string option \<times> store" where
  "ins_all refuses [] s = (None, s)"
| "ins_all refuses (x # xs) s =
     (case query refuses (insert_stmt x) s of
        (Some msg, s') \<Rightarrow> (Some msg, s')
      | (None, s') \<Rightarrow> ins_all refuses xs s')"

text \<open>
  An example of a store: the primary keys of \<^verbatim>\<open>runs\<close> and \<^verbatim>\<open>steps\<close> in schema.sql (the first
  parameter of their inserts) are not null and unique; the first parameter of an insert
  into \<^verbatim>\<open>candidates\<close>, its step, is not null.
\<close>

definition primary_keys :: "row list \<Rightarrow> row \<Rightarrow> string option" where
  "primary_keys rows x =
     (case snd x of
        [] \<Rightarrow> Some ''bind message supplies 0 parameters''
      | k # ps \<Rightarrow>
          if k = Raw Undefined \<or> k = Raw Null then Some ''null value violates not-null constraint''
          else if fst x \<noteq> Candidates \<and> (fst x, k) \<in> set (map (\<lambda>y. (fst y, hd (snd y))) rows)
          then Some ''duplicate key value violates unique constraint''
          else None)"

definition demo_cand_json :: cand_json where
  "demo_cand_json = CandJson [''data'' \<mapsto> Ref 7, ''status'' \<mapsto> Str ''accepted'']"

definition demo_step_json :: step_json where
  "demo_step_json =
     StepJson [''id'' \<mapsto> Str ''step-1'', ''stepName'' \<mapsto> Str ''filter_price'']
       (Some [demo_cand_json])"

definition demo_body :: run_json where
  "demo_body =
     RunJson [''id'' \<mapsto> Str ''run-1'', ''pipelineName'' \<mapsto> Str ''competitor_selection'']
       (Some [demo_step_json])"

definition empty_store :: store where
  "empty_store = \<lparr>visible = [], tx = None, received = []\<rparr>"

definition stored_once :: store where
  "stored_once = snd (post_runs primary_keys demo_body empty_store)"

text \<open>Rows of the two tables for the scenario of three steps, and one step without candidates.\<close>

definition demo_run_row :: run_row where
  "demo_run_row =
     \<lparr>run_row.id = ''run-1'', run_row.pipeline_name = ''competitor_selection'',
      run_row.status = ''completed'', run_row.started_at = 1000,
      run_row.completed_at = Some 2000, run_row.input = None, run_row.output_js = None,
      run_row.metadata = None, run_row.created_at = 2001\<rparr>"

definition demo_step_row :: "string \<Rightarrow> int \<Rightarrow> string \<Rightarrow> int option \<Rightarrow> int option \<Rightarrow> step_row" where
  "demo_step_row sid idx ty cin cout =
     \<lparr>step_row.id = sid, step_row.run_id = ''run-1'', step_row.step_name = sid,
      step_row.step_type = ty, step_index = idx, step_row.started_at = 1000 + idx,
      step_row.completed_at = None, duration_ms = None, step_row.input = None,
      step_row.output_js = None, step_row.candidates_in = cin,
      step_row.candidates_out = cout, step_row.reasoning = None,
      step_row.filters_applied = None, step_row.metadata = None,
      step_row.created_at = 2001\<rparr>"

definition demo_step_rows :: "step_row list" where
  "demo_step_rows =
     [demo_step_row ''search'' 0 ''api'' None (Some 5000),
      demo_step_row ''filter_price'' 1 ''filter'' (Some 5000) (Some 450),
      demo_step_row ''filter_rating'' 2 ''filter'' (Some 450) (Some 30),
      demo_step_row ''filter_empty'' 3 ''filter'' (Some 0) (Some 0)]"

section \<open>Properties of the arithmetic on doubles\<close>

declare bit_length.simps [simp del]

lemma pow2_pos: "0 < pow2 k"
  by (simp add: pow2_def)

lemma pow2_add: "pow2 (a + b) = pow2 a * pow2 b"
  by (simp add: pow2_def power_int_add)

lemma pow2_mono: "a \<le> b \<Longrightarrow> pow2 a \<le> pow2 b"
  by (simp add: pow2_def power_int_increasing)

lemma pow2_strict_mono: "a < b \<Longrightarrow> pow2 a < pow2 b"
  by (simp add: pow2_def power_int_strict_increasing)

lemma pow2_Suc: "pow2 (k + 1) = 2 * pow2 k"
  using pow2_add [of k 1] by (simp add: pow2_def)

lemma pow2_half: "pow2 (k - 1) = 1 / 2 * pow2 k"
  using pow2_Suc [of "k - 1"] by simp

lemma abs_signed:
  fixes r x :: rat
  shows "\<bar>(if x < 0 then - r else r) - x\<bar> = \<bar>r - \<bar>x\<bar>\<bar>"
  by (auto simp: abs_if)

lemma pow2_nat: "0 \<le> k \<Longrightarrow> pow2 k = 2 ^ nat k"
  by (simp add: pow2_def power_int_def)

lemma pow2_neg: "pow2 (- k) = 1 / pow2 k"
  by (simp add: pow2_def power_int_minus_divide)

lemma pow2_less_cancel: "pow2 a < pow2 b \<Longrightarrow> a < b"
  using pow2_mono [of b a] by (cases "a < b") auto

lemma bit_length_bounds:
  "0 < n \<Longrightarrow> 1 \<le> bit_length n \<and> 2 ^ nat (bit_length n - 1) \<le> n \<and> n < 2 ^ nat (bit_length n)"
proof (induction n rule: bit_length.induct)
  case (1 n)
  show ?case
  proof (cases "n div 2 = 0")
    case True
    with "1.prems" have "n = 1" by presburger
    then show ?thesis by (simp add: bit_length.simps)
  next
    case False
    with "1.prems" have h: "0 < n div 2" by presburger
    from "1.IH" [OF _ h] "1.prems" have
      k1: "1 \<le> bit_length (n div 2)"
      and lo: "2 ^ nat (bit_length (n div 2) - 1) \<le> n div 2"
      and hi: "n div 2 < 2 ^ nat (bit_length (n div 2))"
      by auto
    have bl: "bit_length n = 1 + bit_length (n div 2)"
      using "1.prems" by (subst bit_length.simps) simp
    have e1: "nat (bit_length n - 1) = Suc (nat (bit_length (n div 2) - 1))"
      using k1 bl by simp
    have e2: "nat (bit_length n) = Suc (nat (bit_length (n div 2)))"
      using k1 bl by simp
    have "2 * (n div 2) \<le> n" "n \<le> 2 * (n div 2) + 1" by presburger+
    with lo hi show ?thesis
      unfolding e1 e2 using bl k1 by simp
  qed
qed

lemma ilog2_bounds:
  assumes "0 < a"
  shows "pow2 (ilog2 a) \<le> a \<and> a < pow2 (ilog2 a + 1)"
proof (cases "1 \<le> a")
  case True
  let ?n = "\<lfloor>a\<rfloor>"
  have n: "0 < ?n" using True by simp
  from bit_length_bounds [OF n] have
    k: "1 \<le> bit_length ?n"
    and lo: "2 ^ nat (bit_length ?n - 1) \<le> ?n"
    and hi: "?n < 2 ^ nat (bit_length ?n)"
    by auto
  have i: "ilog2 a = bit_length ?n - 1"
    using True by (simp add: ilog2_def)
  have "(of_int (2 ^ nat (bit_length ?n - 1)) :: rat) \<le> of_int ?n"
    using lo by (simp only: of_int_le_iff)
  also have "\<dots> \<le> a" by simp
  finally have 1: "pow2 (ilog2 a) \<le> a"
    using k by (simp add: i pow2_nat)
  have "?n + 1 \<le> 2 ^ nat (bit_length ?n)" using hi by simp
  then have "(of_int (?n + 1) :: rat) \<le> of_int (2 ^ nat (bit_length ?n))"
    by (simp only: of_int_le_iff)
  moreover have "a < of_int (?n + 1)" by linarith
  ultimately have 2: "a < pow2 (ilog2 a + 1)"
    using k by (simp add: i pow2_nat)
  from 1 2 show ?thesis by blast
next
  case False
  let ?c = "\<lceil>1 / a\<rceil>"
  let ?n = "?c - 1"
  have inv: "1 < 1 / a" using False assms by (simp add: field_simps)
  then have c: "2 \<le> ?c" by linarith
  then have n: "0 < ?n" by simp
  from bit_length_bounds [OF n] have
    k: "1 \<le> bit_length ?n"
    and lo: "2 ^ nat (bit_length ?n - 1) \<le> ?n"
    and hi: "?n < 2 ^ nat (bit_length ?n)"
    by auto
  have i: "ilog2 a = - bit_length ?n"
    using False by (simp add: ilog2_def)
  have "?c \<le> 2 ^ nat (bit_length ?n)" using hi by simp
  then have "(of_int ?c :: rat) \<le> of_int (2 ^ nat (bit_length ?n))"
    by (simp only: of_int_le_iff)
  then have "1 / a \<le> of_int (2 ^ nat (bit_length ?n))"
    using le_of_int_ceiling [of "1 / a"] by (rule order_trans [rotated])
  then have "1 / a \<le> pow2 (bit_length ?n)"
    using k by (simp add: pow2_nat)
  then have 1: "pow2 (ilog2 a) \<le> a"
    using assms pow2_pos [of "bit_length ?n"] by (simp add: i pow2_neg field_simps)
  have "(of_int (2 ^ nat (bit_length ?n - 1)) :: rat) \<le> of_int ?n"
    using lo by (simp only: of_int_le_iff)
  moreover have "(of_int ?n :: rat) < 1 / a" by linarith
  ultimately have "pow2 (bit_length ?n - 1) < 1 / a"
    using k by (simp add: pow2_nat)
  then have "a < 1 / pow2 (bit_length ?n - 1)"
    using assms pow2_pos [of "bit_length ?n - 1"] by (simp add: field_simps)
  then have 2: "a < pow2 (ilog2 a + 1)"
    using pow2_neg [of "bit_length ?n - 1"] by (simp add: i)
  from 1 2 show ?thesis by blast
qed

lemma ilog2_unique:
  assumes "pow2 e \<le> a" and "a < pow2 (e + 1)"
  shows "ilog2 a = e"
proof -
  have a: "0 < a" using assms(1) pow2_pos [of e] by linarith
  from ilog2_bounds [OF a] have lo: "pow2 (ilog2 a) \<le> a" and hi: "a < pow2 (ilog2 a + 1)"
    by auto
  have "pow2 e < pow2 (ilog2 a + 1)" using assms(1) hi by linarith
  then have 1: "e < ilog2 a + 1" by (rule pow2_less_cancel)
  have "pow2 (ilog2 a) < pow2 (e + 1)" using assms(2) lo by linarith
  then have 2: "ilog2 a < e + 1" by (rule pow2_less_cancel)
  from 1 2 show ?thesis by simp
qed

lemma round_half_even_error: "\<bar>of_int (round_half_even x) - x\<bar> \<le> 1 / 2"
proof -
  have "of_int \<lfloor>x\<rfloor> \<le> x" "x < of_int \<lfloor>x\<rfloor> + 1" by linarith+
  then show ?thesis
    by (auto simp: round_half_even_def Let_def)
qed

lemma round_half_even_eqI:
  "of_int m - 1 / 2 < x \<Longrightarrow> x < of_int m + 1 / 2 \<Longrightarrow> round_half_even x = m"
  using round_half_even_error [of x] by linarith

lemma abs_scaled:
  fixes c m a :: rat
  assumes "0 < c"
  shows "\<bar>m - a / c\<bar> * c = \<bar>m * c - a\<bar>"
proof -
  have "m * c - a = (m - a / c) * c"
    using assms by (simp add: field_simps)
  then show ?thesis
    using assms by (simp add: abs_mult)
qed

lemma round_to_double_error:
  assumes "\<bar>x\<bar> < pow2 1023"
  shows "\<exists>r. round_to_double x = Finite r
           \<and> \<bar>r - x\<bar> \<le> \<bar>x\<bar> * pow2 (- 53) + pow2 (- 1075)"
proof (cases "x = 0")
  case True
  then show ?thesis using pow2_pos [of "- 1075"] by (simp add: round_to_double_def less_imp_le)
next
  case False
  let ?a = "\<bar>x\<bar>"
  let ?e = "ilog2 ?a"
  let ?p = "max ?e (- 1022) - 52"
  let ?m = "round_half_even (?a / pow2 ?p)"
  let ?r = "of_int ?m * pow2 ?p"
  have a: "0 < ?a" using False by simp
  from ilog2_bounds [OF a] have lo: "pow2 ?e \<le> ?a" and hi: "?a < pow2 (?e + 1)"
    by auto
  have "pow2 ?e < pow2 1023" using lo assms by linarith
  then have e: "?e \<le> 1022" using pow2_less_cancel [of ?e 1023] by simp
  have pp: "0 < pow2 ?p" by (rule pow2_pos)
  have h1: "\<bar>of_int ?m - ?a / pow2 ?p\<bar> \<le> 1 / 2" by (rule round_half_even_error)
  have h2: "\<bar>of_int ?m - ?a / pow2 ?p\<bar> * pow2 ?p \<le> 1 / 2 * pow2 ?p"
    using h1 pp by (simp only: mult_le_cancel_right_pos)
  have err: "\<bar>?r - ?a\<bar> \<le> pow2 (?p - 1)"
    using h2 unfolding abs_scaled [OF pp] pow2_half [of ?p] .
  have bound: "pow2 (?p - 1) \<le> ?a * pow2 (- 53) + pow2 (- 1075)"
  proof (cases "- 1022 \<le> ?e")
    case True
    then have "pow2 (?p - 1) = pow2 ?e * pow2 (- 53)"
      using pow2_add [of ?e "- 53"] by (simp add: max_def)
    also have "\<dots> \<le> ?a * pow2 (- 53)"
      using lo pow2_pos [of "- 53"] by (simp only: mult_le_cancel_right_pos)
    finally show ?thesis using pow2_pos [of "- 1075"] by linarith
  next
    case False
    then have "pow2 (?p - 1) = pow2 (- 1075)" by (simp add: max_def)
    moreover have "0 \<le> ?a * pow2 (- 53)" using pow2_pos [of "- 53"] by simp
    ultimately show ?thesis by linarith
  qed
  have "?p - 1 \<le> 969" using e by (simp add: max_def)
  then have "pow2 (?p - 1) \<le> pow2 969" by (rule pow2_mono)
  then have "?r < pow2 1023 + pow2 969" using err assms by linarith
  moreover have "pow2 969 \<le> pow2 1023" by (rule pow2_mono) simp
  moreover have "pow2 1024 = 2 * pow2 1023" using pow2_Suc [of 1023] by simp
  ultimately have fin: "\<not> pow2 1024 \<le> ?r" by linarith
  have val: "round_to_double x = Finite (if x < 0 then - ?r else ?r)"
    using False fin by (simp add: round_to_double_def Let_def)
  have "\<bar>(if x < 0 then - ?r else ?r) - x\<bar> \<le> ?a * pow2 (- 53) + pow2 (- 1075)"
    unfolding abs_signed using err bound by (rule order_trans)
  with val show ?thesis by blast
qed

lemma double_7_100: "round_to_double (7 / 100) = Finite (1261007895663739 / 18014398509481984)"
  by code_simp
lemma double_100_times: "round_to_double (100 * (1261007895663739 / 18014398509481984)) = Finite (7881299347898369 / 1125899906842624)"
  by code_simp

lemma pow2_numeral_facts:
  "pow2 (- 56) = pow2 (- 53) / 8" "pow2 (- 52) = 2 * pow2 (- 53)" "pow2 (- 21) \<le> 1 / 2"
  "pow2 (- 53) \<le> 1" "pow2 32 * pow2 (- 53) = pow2 (- 21)" "pow2 34 \<le> pow2 1023"
  "pow2 32 + 2 \<le> pow2 34"
proof -
  show "pow2 (- 56) = pow2 (- 53) / 8"
    using pow2_add [of "- 53" "- 3"] by (simp add: pow2_def)
  show "pow2 (- 52) = 2 * pow2 (- 53)"
    using pow2_Suc [of "- 53"] by simp
  show "pow2 (- 21) \<le> 1 / 2"
    using pow2_mono [of "- 21" "- 1"] by (simp add: pow2_def)
  show "pow2 (- 53) \<le> 1"
    using pow2_mono [of "- 53" 0] by (simp add: pow2_def)
  show "pow2 32 * pow2 (- 53) = pow2 (- 21)"
    using pow2_add [of 32 "- 53"] by simp
  show "pow2 34 \<le> pow2 1023"
    by (rule pow2_mono) simp
  show "pow2 32 + 2 \<le> pow2 34"
    by (simp add: pow2_def)
qed

lemma double_rate_error:
  assumes "\<bar>x\<bar> < pow2 32"
  shows "\<exists>q r. round_to_double x = Finite q \<and> round_to_double (1 - q) = Finite r
           \<and> \<bar>r - (1 - x)\<bar> \<le> pow2 (- 52) * (1 + \<bar>x\<bar>)
           \<and> (pow2 (- 64) \<le> \<bar>x\<bar> \<longrightarrow> q \<noteq> 0)"
proof -
  define E where "E = pow2 (- 53)"
  define H where "H = pow2 (- 1075)"
  have E: "0 < E" "E \<le> 1" and H: "0 < H"
    by (simp_all add: E_def H_def pow2_pos pow2_numeral_facts)
  have "pow2 (- 1075) \<le> pow2 (- 56)" by (rule pow2_mono) simp
  then have HE: "8 * H \<le> E" by (simp add: E_def H_def pow2_numeral_facts)
  have "\<bar>x\<bar> * E \<le> pow2 32 * E"
    using assms E(1) by (simp add: mult_right_mono less_imp_le)
  then have xE: "\<bar>x\<bar> * E \<le> 1 / 2"
    using pow2_numeral_facts by (simp add: E_def)
  have x1023: "\<bar>x\<bar> < pow2 1023"
    using assms pow2_mono [of 32 1023] by simp
  from round_to_double_error [OF x1023] obtain q where
    q: "round_to_double x = Finite q" and qe: "\<bar>q - x\<bar> \<le> \<bar>x\<bar> * E + H"
    by (auto simp: E_def H_def)
  have "\<bar>1 - q\<bar> \<le> 1 + \<bar>x\<bar> + (\<bar>x\<bar> * E + H)"
    using qe by linarith
  also have "\<dots> < pow2 32 + 2"
    using assms xE HE E by linarith
  finally have "\<bar>1 - q\<bar> < pow2 1023"
    using pow2_numeral_facts by linarith
  from round_to_double_error [OF this] obtain r where
    r: "round_to_double (1 - q) = Finite r" and re: "\<bar>r - (1 - q)\<bar> \<le> \<bar>1 - q\<bar> * E + H"
    by (auto simp: E_def H_def)
  have b1: "\<bar>1 - q\<bar> * E \<le> (1 + \<bar>x\<bar> + (\<bar>x\<bar> * E + H)) * E"
    using \<open>\<bar>1 - q\<bar> \<le> 1 + \<bar>x\<bar> + (\<bar>x\<bar> * E + H)\<close> E(1) by (simp add: mult_right_mono less_imp_le)
  have b2: "(\<bar>x\<bar> * E) * E \<le> 1 / 2 * E"
    using xE E(1) by (simp only: mult_right_mono less_imp_le)
  have b3: "H * E \<le> H"
    using E H by (simp add: mult_left_le)
  have "(1 + \<bar>x\<bar> + (\<bar>x\<bar> * E + H)) * E = E + \<bar>x\<bar> * E + (\<bar>x\<bar> * E) * E + H * E"
    by (simp add: algebra_simps)
  with b1 b2 b3 have "\<bar>1 - q\<bar> * E \<le> E + \<bar>x\<bar> * E + 1 / 2 * E + H"
    by linarith
  then have b4: "\<bar>1 - q\<bar> * E \<le> E + \<bar>x\<bar> * E + 1 / 2 * E + H" .
  have tri: "\<bar>r - (1 - x)\<bar> \<le> \<bar>r - (1 - q)\<bar> + \<bar>q - x\<bar>"
    by linarith
  define A where "A = \<bar>1 - q\<bar> * E"
  define B where "B = \<bar>x\<bar> * E"
  define R where "R = \<bar>r - (1 - x)\<bar>"
  define R1 where "R1 = \<bar>r - (1 - q)\<bar>"
  define R2 where "R2 = \<bar>q - x\<bar>"
  have "R \<le> R1 + R2" "R1 \<le> A + H" "R2 \<le> B + H" "A \<le> E + B + 1 / 2 * E + H"
    using tri re qe b4 by (simp_all only: A_def B_def R_def R1_def R2_def)
  with HE H have "R \<le> 2 * E + 2 * B"
    by linarith
  then have "\<bar>r - (1 - x)\<bar> \<le> 2 * E + 2 * (\<bar>x\<bar> * E)"
    by (simp only: R_def B_def)
  also have "\<dots> = pow2 (- 52) * (1 + \<bar>x\<bar>)"
    by (simp add: E_def pow2_numeral_facts algebra_simps)
  finally have bound: "\<bar>r - (1 - x)\<bar> \<le> pow2 (- 52) * (1 + \<bar>x\<bar>)" .
  have nz: "q \<noteq> 0" if "pow2 (- 64) \<le> \<bar>x\<bar>"
  proof
    assume "q = 0"
    with qe have "\<bar>x\<bar> \<le> \<bar>x\<bar> * E + H" by simp
    moreover have "\<bar>x\<bar> * E \<le> \<bar>x\<bar> * (1 / 2)"
    proof -
      have "E \<le> 1 / 2"
        using pow2_mono [of "- 53" "- 1"] by (simp add: E_def pow2_def)
      then show ?thesis by (rule mult_left_mono) simp
    qed
    moreover have "H < pow2 (- 64) * (1 / 2)"
    proof -
      have "pow2 (- 1075) < pow2 (- 65)" by (rule pow2_strict_mono) simp
      moreover have "pow2 (- 64) = 2 * pow2 (- 65)" using pow2_Suc [of "- 65"] by simp
      ultimately show ?thesis by (simp add: H_def)
    qed
    ultimately show False using that by linarith
  qed
  from q r bound nz show ?thesis by blast
qed

lemma round_to_double_0: "round_to_double 0 = Finite 0"
  by (simp add: round_to_double_def)

lemma round_to_double_1: "round_to_double 1 = Finite 1"
  by code_simp

lemma double_1_100: "round_to_double (1 / 100) = Finite (5764607523034235 / 576460752303423488)"
  by code_simp

lemma double_two_thirds:
  "round_to_double (2 / 3) = Finite (6004799503160661 / 9007199254740992)"
  by code_simp

lemma double_91_100:
  "round_to_double (91 / 100) = Finite (8196551321814303 / 9007199254740992)"
  by code_simp

lemma double_29_30:
  "round_to_double (29 / 30) = Finite (8706959279582959 / 9007199254740992)"
  by code_simp

lemma double_600: "round_to_double (600 * (5764607523034235 / 576460752303423488)) = Finite 6"
  by code_simp

lemma double_4550: "round_to_double (4550 * (5764607523034235 / 576460752303423488)) = Finite (91 / 2)"
  by code_simp

lemma double_3: "round_to_double (3 * (5764607523034235 / 576460752303423488)) = Finite (1080863910568919 / 36028797018963968)"
  by code_simp

lemma double_1_3: "round_to_double (1 / 3) = Finite (6004799503160661 / 18014398509481984)"
  by code_simp

lemma double_1_minus_1_3:
  "round_to_double (12009599006321323 / 18014398509481984) = Finite (3002399751580331 / 4503599627370496)"
  by code_simp

lemma double_9_100: "round_to_double (9 / 100) = Finite (3242591731706757 / 36028797018963968)"
  by code_simp

lemma double_1_minus_9_100:
  "round_to_double (32786205287257211 / 36028797018963968) = Finite (8196551321814303 / 9007199254740992)"
  by code_simp

lemma double_1_30: "round_to_double (1 / 30) = Finite (4803839602528529 / 144115188075855872)"
  by code_simp

lemma double_1_minus_1_30:
  "round_to_double (139311348473327343 / 144115188075855872) = Finite (8706959279582959 / 9007199254740992)"
  by code_simp

lemma times_100: "js_times (Finite (of_nat 100)) (js_number (7 / 100)) = Finite (7881299347898369 / 1125899906842624)"
proof -
  have n: "of_nat 100 = (100 :: rat)" by simp
  show ?thesis unfolding js_number_def double_7_100 js_times.simps n double_100_times ..
qed

lemma times_600: "js_times (Finite (of_nat 600)) (js_number (1 / 100)) = Finite 6"
proof -
  have n: "of_nat 600 = (600 :: rat)" by simp
  show ?thesis unfolding js_number_def double_1_100 js_times.simps n double_600 ..
qed

lemma times_4550: "js_times (Finite (of_nat 4550)) (js_number (1 / 100)) = Finite (91 / 2)"
proof -
  have n: "of_nat 4550 = (4550 :: rat)" by simp
  show ?thesis unfolding js_number_def double_1_100 js_times.simps n double_4550 ..
qed

lemma times_3: "js_times (Finite (of_nat (Suc (Suc (Suc 0))))) (js_number (1 / 100)) = Finite (1080863910568919 / 36028797018963968)"
proof -
  have n: "of_nat (Suc (Suc (Suc 0))) = (3 :: rat)" by simp
  show ?thesis unfolding js_number_def double_1_100 js_times.simps n double_3 ..
qed

lemma rejected_sample_size_100: "rejected_sample_size 100 (js_number (7 / 100)) = 8"
proof -
  have "\<lceil>7881299347898369 / 1125899906842624 :: rat\<rceil> = 8"
    by (rule ceiling_unique) simp_all
  then show ?thesis unfolding rejected_sample_size_def times_100 by simp
qed

lemma rejected_sample_size_600: "rejected_sample_size 600 (js_number (1 / 100)) = 6"
  unfolding rejected_sample_size_def times_600 by simp

lemma rejected_sample_size_4550: "rejected_sample_size 4550 (js_number (1 / 100)) = 46"
proof -
  have "\<lceil>91 / 2 :: rat\<rceil> = 46"
    by (rule ceiling_unique) simp_all
  then show ?thesis unfolding rejected_sample_size_def times_4550 by simp
qed

lemma rejected_sample_size_3: "rejected_sample_size (Suc (Suc (Suc 0))) (js_number (1 / 100)) = 3"
proof -
  have "\<lceil>1080863910568919 / 36028797018963968 :: rat\<rceil> = 1"
    by (rule ceiling_unique) simp_all
  then show ?thesis unfolding rejected_sample_size_def times_3 by simp
qed

lemma ceiling_exact_600:
  "\<lceil>600 * (5764607523034235 / 576460752303423488) :: rat\<rceil> = 7"
  by (rule ceiling_unique) simp_all

lemma rate_3_1:
  "one_minus (js_div (Suc 0) (Suc (Suc (Suc 0)))) = Finite (3002399751580331 / 4503599627370496)"
proof -
  have "(of_nat (Suc 0) / of_nat (Suc (Suc (Suc 0))) :: rat) = 1 / 3" by simp
  then show ?thesis
    by (simp add: js_div_def double_1_3 double_1_minus_1_3)
qed

lemma rate_5000_450:
  "one_minus (js_div 450 5000) = Finite (8196551321814303 / 9007199254740992)"
proof -
  have "(of_nat 450 / of_nat 5000 :: rat) = 9 / 100" by simp
  then show ?thesis
    by (simp add: js_div_def double_9_100 double_1_minus_9_100)
qed

lemma rate_120_4:
  "one_minus (js_div 4 120) = Finite (8706959279582959 / 9007199254740992)"
proof -
  have "(of_nat 4 / of_nat 120 :: rat) = 1 / 30" by simp
  then show ?thesis
    by (simp add: js_div_def double_1_30 double_1_minus_1_30)
qed

section \<open>Properties of the sampling policy\<close>

lemma take_min_length: "take (min (length xs) k) xs = take k xs"
  by (cases "k \<le> length xs") (simp_all add: min_def)

lemma sampleCandidates_keepAll:
  "keepAllOutputs cfg \<Longrightarrow> sampleCandidates cfg cs Accepted flt = map (tag Accepted None) cs"
  by (simp add: sampleCandidates_def)

lemma map_data_tag: "map data (map (tag st flt) xs) = xs"
  by (induction xs) (simp_all add: tag_def)

lemma map_status_tag:
  "map candidate_data.status (map (tag st flt) xs) = replicate (length xs) st"
  by (induction xs) (simp_all add: tag_def)

lemma map_rejectionFilter_tag:
  "map rejectionFilter (map (tag st flt) xs) = replicate (length xs) flt"
  by (induction xs) (simp_all add: tag_def)

lemma js_trunc_of_int: "js_trunc (of_int k) = k"
  by (simp add: js_trunc_def)

lemma slice0_Finite_nonneg:
  "0 \<le> k \<Longrightarrow> slice0 (Finite (of_int k)) xs = take (nat k) xs"
  by (simp add: js_trunc_of_int)

lemma max_of_int_5: "max (of_int k) (5 :: rat) = of_int (max k 5)"
  by (simp add: max_def)

lemma sampleCandidates_Rejected:
  "sampleCandidates cfg cs Rejected flt =
     map (tag Rejected flt) (take (rejected_sample_size (length cs) (sampleRate cfg)) cs)"
proof (cases "js_times (Finite (of_nat (length cs))) (sampleRate cfg)")
  case (Finite p)
  have "slice0 (Finite (of_int (max \<lceil>p\<rceil> 5))) cs = take (nat (max \<lceil>p\<rceil> 5)) cs"
    by (rule slice0_Finite_nonneg) simp
  also have "\<dots> = take (min (length cs) (nat (max \<lceil>p\<rceil> 5))) cs"
    by (rule take_min_length [symmetric])
  finally show ?thesis
    by (simp add: sampleCandidates_def rejected_sample_size_def Finite Let_def max_of_int_5
        del: slice0.simps)
next
  case PosInfinity
  then show ?thesis
    by (simp add: sampleCandidates_def rejected_sample_size_def Let_def)
next
  case NegInfinity
  have "slice0 (Finite (of_int 5)) cs = take (nat 5) cs"
    by (rule slice0_Finite_nonneg) simp
  also have "\<dots> = take (min (length cs) 5) cs"
    using take_min_length [of cs 5] by simp
  finally show ?thesis
    by (simp add: sampleCandidates_def rejected_sample_size_def NegInfinity Let_def
        del: slice0.simps)
next
  case NaN
  then show ?thesis
    by (simp add: sampleCandidates_def rejected_sample_size_def Let_def)
qed

text \<open>
  C3, as stated, fails: the size is not \<open>min n (max \<lceil>n * sampleRate\<rceil> 5)\<close> for the product
  of real numbers. The code multiplies doubles, and the product is rounded before
  \<^verbatim>\<open>Math.ceil\<close> sees it. With \<^verbatim>\<open>sampleRate: 0.07\<close> and 100 rejected candidates the code
  keeps 8 records, where the formula over the decimal rate gives 7. With the default
  \<^verbatim>\<open>sampleRate: 0.01\<close> and 600 rejected candidates the code keeps 6 records, where the
  formula over the exact value of the double \<^verbatim>\<open>0.01\<close> gives 7. With a rate that is NaN
  the formula has no value and the code keeps nothing.
\<close>

theorem rejected_sample_size_not_real_product:
  "length (sampleCandidates (default_sampling\<lparr>sampleRate := js_number (7 / 100)\<rparr>)
      (replicate 100 (Ref 0)) Rejected (Some ''price_range'')) = 8
   \<and> min 100 (nat (max \<lceil>100 * (7 / 100) :: rat\<rceil> 5)) = 7
   \<and> sampleRate default_sampling = Finite (5764607523034235 / 576460752303423488)
   \<and> length (sampleCandidates default_sampling (replicate 600 (Ref 0)) Rejected
        (Some ''price_range'')) = 6
   \<and> min 600 (nat (max \<lceil>600 * (5764607523034235 / 576460752303423488) :: rat\<rceil> 5)) = 7
   \<and> sampleCandidates (default_sampling\<lparr>sampleRate := NaN\<rparr>) [Ref 1, Ref 2, Ref 3] Rejected
        (Some ''price_range'') = []"
proof -
  have a: "length (sampleCandidates (default_sampling\<lparr>sampleRate := js_number (7 / 100)\<rparr>)
      (replicate 100 (Ref 0)) Rejected (Some ''price_range'')) = 8"
    by (simp add: sampleCandidates_Rejected rejected_sample_size_100)
  have b: "min 100 (nat (max \<lceil>100 * (7 / 100) :: rat\<rceil> 5)) = 7"
    by simp
  have c: "sampleRate default_sampling = Finite (5764607523034235 / 576460752303423488)"
    by (simp add: default_sampling_def js_number_def double_1_100)
  have d: "length (sampleCandidates default_sampling (replicate 600 (Ref 0)) Rejected
        (Some ''price_range'')) = 6"
    by (simp add: sampleCandidates_Rejected default_sampling_def rejected_sample_size_600)
  have e: "min 600 (nat (max \<lceil>600 * (5764607523034235 / 576460752303423488) :: rat\<rceil> 5)) = 7"
    unfolding ceiling_exact_600 by simp
  have f: "sampleCandidates (default_sampling\<lparr>sampleRate := NaN\<rparr>) [Ref 1, Ref 2, Ref 3] Rejected
        (Some ''price_range'') = []"
    by (simp add: sampleCandidates_Rejected rejected_sample_size_def)
  from a b c d e f show ?thesis by blast
qed

text \<open>
  C3, amended. Sampling a list of \<open>n\<close> candidates with disposition \<^verbatim>\<open>rejected\<close> keeps
  exactly the first \<open>rejected_sample_size n sampleRate\<close> elements of the input, in their
  order; every kept record has status \<^verbatim>\<open>rejected\<close> and carries the name of the rejecting
  filter. For a finite rate \<open>r\<close> that size is \<open>min n (max \<lceil>p\<rceil> 5)\<close> where \<open>p\<close> is the
  product \<open>n * r\<close> rounded to the nearest double, which is the real product whenever that
  is a double itself; it is \<open>n\<close> for the rate \<open>+\<infinity>\<close>, \<open>min n 5\<close> for the rate \<open>-\<infinity>\<close>, and
  0 for a rate that is NaN.
\<close>

theorem sampleCandidates_rejected_prefix:
  "map data (sampleCandidates cfg cs Rejected flt) =
     take (rejected_sample_size (length cs) (sampleRate cfg)) cs
   \<and> map candidate_data.status (sampleCandidates cfg cs Rejected flt) =
     replicate (rejected_sample_size (length cs) (sampleRate cfg)) Rejected
   \<and> map rejectionFilter (sampleCandidates cfg cs Rejected flt) =
     replicate (rejected_sample_size (length cs) (sampleRate cfg)) flt
   \<and> length (sampleCandidates cfg cs Rejected flt) =
     rejected_sample_size (length cs) (sampleRate cfg)
   \<and> (round_to_double (of_nat n * r) = Finite p \<longrightarrow>
        rejected_sample_size n (Finite r) = min n (nat (max \<lceil>p\<rceil> 5)))
   \<and> (round_to_double (of_nat n * r) = Finite (of_nat n * r) \<longrightarrow>
        rejected_sample_size n (Finite r) = min n (nat (max \<lceil>of_nat n * r\<rceil> 5)))
   \<and> rejected_sample_size n PosInfinity = n
   \<and> rejected_sample_size n NegInfinity = min n 5
   \<and> rejected_sample_size n NaN = 0"
proof -
  let ?k = "rejected_sample_size (length cs) (sampleRate cfg)"
  have le: "?k \<le> length cs"
    by (cases "js_times (Finite (of_nat (length cs))) (sampleRate cfg)")
       (simp_all add: rejected_sample_size_def)
  then have len: "length (take ?k cs) = ?k" by simp
  have lists: "map data (sampleCandidates cfg cs Rejected flt) = take ?k cs
     \<and> map candidate_data.status (sampleCandidates cfg cs Rejected flt) = replicate ?k Rejected
     \<and> map rejectionFilter (sampleCandidates cfg cs Rejected flt) = replicate ?k flt
     \<and> length (sampleCandidates cfg cs Rejected flt) = ?k"
    unfolding sampleCandidates_Rejected map_data_tag map_status_tag map_rejectionFilter_tag
      length_map len by simp
  have inf: "rejected_sample_size n PosInfinity = n \<and> rejected_sample_size n NegInfinity = min n 5"
    by (simp add: rejected_sample_size_def)
  have nan: "rejected_sample_size n NaN = 0"
    by (simp add: rejected_sample_size_def)
  have fin: "round_to_double (of_nat n * r) = Finite q \<longrightarrow>
        rejected_sample_size n (Finite r) = min n (nat (max \<lceil>q\<rceil> 5))" for q
    by (simp add: rejected_sample_size_def)
  show ?thesis
    using lists inf nan fin [of p] fin [of "of_nat n * r"] by simp
qed

theorem sampleCandidates_rejected_prefix_witness:
  "round_to_double (of_nat 4550 * (5764607523034235 / 576460752303423488)) = Finite (91 / 2)
   \<and> rejected_sample_size 4550 (Finite (5764607523034235 / 576460752303423488)) = 46
   \<and> round_to_double (of_nat 4550 * (1 / 4)) = Finite (of_nat 4550 * (1 / 4))
   \<and> rejected_sample_size 4550 (Finite (1 / 4)) = 1138
   \<and> length (sampleCandidates default_sampling (replicate 4550 (Ref 0)) Rejected
      (Some ''price_range'')) = 46
   \<and> map data (sampleCandidates default_sampling [Ref 1, Ref 2, Ref 3] Rejected
      (Some ''price_range'')) = [Ref 1, Ref 2, Ref 3]
   \<and> map rejectionFilter (sampleCandidates default_sampling [Ref 1, Ref 2, Ref 3] Rejected
      (Some ''price_range'')) = replicate 3 (Some ''price_range'')"
proof -
  have h1: "round_to_double (of_nat 4550 * (5764607523034235 / 576460752303423488)) = Finite (91 / 2)"
    using double_4550 by simp
  have "round_to_double (2275 / 2) = Finite (2275 / 2)"
    by code_simp
  then have h2: "round_to_double (of_nat 4550 * (1 / 4)) = Finite (of_nat 4550 * (1 / 4))"
    by simp
  have c2: "\<lceil>2275 / 2 :: rat\<rceil> = 1138"
    by (rule ceiling_unique) simp_all
  have c: "\<lceil>91 / 2 :: rat\<rceil> = 46"
    by (rule ceiling_unique) simp_all
  show ?thesis
    using h1 h2
      sampleCandidates_rejected_prefix [of default_sampling "replicate 4550 (Ref 0)" "Some ''price_range''"
             4550 "5764607523034235 / 576460752303423488" "91 / 2"]
      sampleCandidates_rejected_prefix [of default_sampling "[Ref 1, Ref 2, Ref 3]" "Some ''price_range''"
             4550 "1 / 4" "2275 / 2"]
    by (simp add: default_sampling_def rejected_sample_size_4550 rejected_sample_size_3 c c2)
qed

section \<open>Properties of the recording operations\<close>

lemma candidates_recordCandidates:
  "candidates (recordCandidates cs st_arg s) =
     candidates s @ sampleCandidates (step.sampling s) cs
       (case st_arg of None \<Rightarrow> Accepted | Some st' \<Rightarrow> st') None"
  by (simp add: recordCandidates_def Let_def)

lemma candidatesOut_recordCandidates:
  "candidatesOut (recordCandidates cs st_arg s) =
     (if (case st_arg of None \<Rightarrow> Accepted | Some st' \<Rightarrow> st') = Accepted
      then Some (int (length cs)) else candidatesOut s)"
  by (simp add: recordCandidates_def Let_def)

lemma candidatesIn_recordCandidates:
  "candidatesIn (recordCandidates cs st_arg s) = candidatesIn s"
  by (simp add: recordCandidates_def Let_def)

lemma includes_js_iff: "includes_js xs c \<longleftrightarrow> c \<in> set xs"
  by (simp add: includes_js_def)

lemma set_rejected_of: "set (rejected_of b a) = set b - set a"
  by (auto simp: rejected_of_def includes_js_iff)

lemma candidates_recordFiltering:
  "candidates (recordFiltering b a fn ft ps s) =
     candidates s @ sampleCandidates (step.sampling s) (rejected_of b a) Rejected (Some fn)
       @ sampleCandidates (step.sampling s) a Accepted None"
  by (simp add: recordFiltering_def Let_def)

lemma filtersApplied_recordFiltering:
  "filtersApplied (recordFiltering b a fn ft ps s) =
     filtersApplied s @ [filter_record b a fn ft ps]"
  by (simp add: recordFiltering_def Let_def)

lemma candidatesIn_recordFiltering:
  "candidatesIn (recordFiltering b a fn ft ps s) = Some (int (length b))"
  by (simp add: recordFiltering_def Let_def)

lemma candidatesOut_recordFiltering:
  "candidatesOut (recordFiltering b a fn ft ps s) = Some (int (length a))"
  by (simp add: recordFiltering_def Let_def)

lemma foldl_apply_filtering_snoc:
  "foldl apply_filtering s (cs @ [c]) = apply_filtering (foldl apply_filtering s cs) c"
  by simp

lemma filtersApplied_foldl:
  "filtersApplied (foldl apply_filtering s cs) = filtersApplied s @ map record_of_call cs"
  by (induction cs arbitrary: s)
     (simp_all add: apply_filtering_def record_of_call_def filtersApplied_recordFiltering)

text \<open>
  C9. With \<^verbatim>\<open>keepAllOutputs = true\<close>, \<^verbatim>\<open>recordCandidates\<close> with disposition \<^verbatim>\<open>accepted\<close>
  (given, or by default) on a list of \<open>N\<close> candidates appends exactly \<open>N\<close> records to the
  step, one per candidate in order, each with status \<^verbatim>\<open>accepted\<close> and the candidate as its
  data, and sets \<^verbatim>\<open>candidatesOut\<close> to \<open>N\<close>, the length of the input list.
\<close>

theorem recordCandidates_keepAll_accepted:
  assumes "keepAllOutputs (step.sampling s)" and "st_arg = None \<or> st_arg = Some Accepted"
  shows "candidates (recordCandidates cs st_arg s) =
           candidates s @ retained_by s (recordCandidates cs st_arg s)
    \<and> length (retained_by s (recordCandidates cs st_arg s)) = length cs
    \<and> map data (retained_by s (recordCandidates cs st_arg s)) = cs
    \<and> map candidate_data.status (retained_by s (recordCandidates cs st_arg s)) =
        replicate (length cs) Accepted
    \<and> candidatesOut (recordCandidates cs st_arg s) = Some (int (length cs))"
proof -
  have st: "(case st_arg of None \<Rightarrow> Accepted | Some st' \<Rightarrow> st') = Accepted"
    using assms(2) by auto
  have c: "candidates (recordCandidates cs st_arg s) = candidates s @ map (tag Accepted None) cs"
    unfolding candidates_recordCandidates st using assms(1)
    by (simp add: sampleCandidates_keepAll)
  have r: "retained_by s (recordCandidates cs st_arg s) = map (tag Accepted None) cs"
    unfolding retained_by_def c by simp
  show ?thesis
    unfolding r map_data_tag map_status_tag candidatesOut_recordCandidates st c by simp
qed

text \<open>
  C7. In \<^verbatim>\<open>recordFiltering\<close> the list handed to the sampler as rejected is the before-list
  without the elements that occur in the after-list, compared as \<^verbatim>\<open>includes\<close> compares
  (objects by reference); the after-list is handed to the sampler as accepted. Before
  sampling, every element of the before-list is in exactly one of the two.
\<close>

theorem recordFiltering_partition:
  "candidates (recordFiltering b a fn ft ps s) =
     candidates s @ sampleCandidates (step.sampling s) (rejected_of b a) Rejected (Some fn)
       @ sampleCandidates (step.sampling s) a Accepted None
   \<and> rejected_of b a = filter (\<lambda>c. c \<notin> set a) b
   \<and> set (rejected_of b a) \<inter> set a = {}
   \<and> set b \<subseteq> set (rejected_of b a) \<union> set a
   \<and> (\<forall>c \<in> set b. (c \<in> set (rejected_of b a)) \<noteq> (c \<in> set a))"
proof -
  have "rejected_of b a = filter (\<lambda>c. c \<notin> set a) b"
    by (simp add: rejected_of_def includes_js_iff)
  moreover have "set (rejected_of b a) \<inter> set a = {}"
    by (auto simp: set_rejected_of)
  moreover have "set b \<subseteq> set (rejected_of b a) \<union> set a"
    by (auto simp: set_rejected_of)
  moreover have "\<forall>c \<in> set b. (c \<in> set (rejected_of b a)) \<noteq> (c \<in> set a)"
    by (auto simp: set_rejected_of)
  ultimately show ?thesis
    using candidates_recordFiltering by blast
qed

text \<open>
  C8, as stated, fails: the recorded rate is a double, computed by a division and a
  subtraction that both round. From three candidates to one the recorded rate is
  \<^verbatim>\<open>0.6666666666666667\<close>, which is neither \<open>2/3\<close> nor the double nearest to \<open>2/3\<close>; and the
  recorded rates of the two examples are doubles, not the rationals \<open>91/100\<close> and \<open>29/30\<close>.
\<close>

theorem elimination_rate_not_exact:
  "eliminationRate (filter_record [Ref 1, Ref 2, Ref 3] [Ref 1] ''price_range'' ''range'' None) =
     Finite (3002399751580331 / 4503599627370496)
   \<and> (3002399751580331 / 4503599627370496 :: rat) \<noteq> 1 - 1 / 3
   \<and> round_to_double (1 - 1 / 3) = Finite (6004799503160661 / 9007199254740992)
   \<and> (3002399751580331 / 4503599627370496 :: rat) \<noteq> 6004799503160661 / 9007199254740992
   \<and> eliminationRate (filter_record (replicate 5000 (Ref 0)) (replicate 450 (Ref 0))
        ''price_range'' ''range'' None) \<noteq> Finite (91 / 100)
   \<and> eliminationRate (filter_record (replicate 120 (Ref 0)) (replicate 4 (Ref 0))
        ''llm_relevance'' ''llm_eval'' None) \<noteq> Finite (29 / 30)"
  by (simp add: filter_record_def rate_3_1 rate_5000_450 rate_120_4 double_two_thirds)

text \<open>
  C8, amended. For a non-empty before-list, the filter record that \<^verbatim>\<open>recordFiltering\<close>
  appends carries the lengths of the two lists as its counts; its elimination rate is the
  double obtained by rounding the quotient \<open>length after / length before\<close> to the nearest
  double \<open>q\<close> and then rounding \<open>1 - q\<close>. For arrays (fewer than \<open>2^32\<close> elements) that
  rate is finite and differs from \<open>1 - length after / length before\<close> by at most
  \<open>2^-52 * (1 + length after / length before)\<close>; it is exactly 1 for an empty after-list and
  exactly 0 for lists of equal length.
\<close>

theorem recordFiltering_elimination_rate:
  assumes "0 < length b"
  shows "filtersApplied (recordFiltering b a fn ft ps s) =
           filtersApplied s @ [filter_record b a fn ft ps]
    \<and> candidateBefore (filter_record b a fn ft ps) = length b
    \<and> candidatesAfter (filter_record b a fn ft ps) = length a
    \<and> eliminationRate (filter_record b a fn ft ps) =
        one_minus (round_to_double (of_nat (length a) / of_nat (length b)))
    \<and> (length a < 2 ^ 32 \<longrightarrow>
        (\<exists>q r. round_to_double (of_nat (length a) / of_nat (length b)) = Finite q
           \<and> round_to_double (1 - q) = Finite r
           \<and> eliminationRate (filter_record b a fn ft ps) = Finite r
           \<and> \<bar>r - (1 - of_nat (length a) / of_nat (length b))\<bar>
               \<le> pow2 (- 52) * (1 + of_nat (length a) / of_nat (length b))))
    \<and> (length a = 0 \<longrightarrow> eliminationRate (filter_record b a fn ft ps) = Finite 1)
    \<and> (length a = length b \<longrightarrow> eliminationRate (filter_record b a fn ft ps) = Finite 0)"
proof -
  let ?x = "of_nat (length a) / of_nat (length b) :: rat"
  have rate: "eliminationRate (filter_record b a fn ft ps) = one_minus (round_to_double ?x)"
    using assms by (simp add: filter_record_def js_div_def)
  have bound: "\<exists>q r. round_to_double ?x = Finite q \<and> round_to_double (1 - q) = Finite r
           \<and> eliminationRate (filter_record b a fn ft ps) = Finite r
           \<and> \<bar>r - (1 - ?x)\<bar> \<le> pow2 (- 52) * (1 + ?x)" if "length a < 2 ^ 32"
  proof -
    have x0: "0 \<le> ?x" by simp
    from assms have "1 \<le> length b"
      by linarith
    then have "of_nat 1 \<le> (of_nat (length b) :: rat)"
      by (rule of_nat_mono)
    then have lb: "1 \<le> (of_nat (length b) :: rat)"
      by (simp only: of_nat_1)
    have p1: "0 \<le> (of_nat (length a) :: rat)"
      by (rule of_nat_0_le_iff)
    have p2: "0 < (of_nat (length b) :: rat) * 1"
      unfolding mult_1_right using lb by linarith
    have "?x \<le> of_nat (length a) / 1"
      by (rule divide_left_mono [OF lb p1 p2])
    then have "?x \<le> of_nat (length a)"
      by simp
    also have "\<dots> < 2 ^ 32"
      using that by (metis of_nat_less_iff of_nat_numeral of_nat_power)
    also have "\<dots> = pow2 32" by (simp add: pow2_def)
    finally have "\<bar>?x\<bar> < pow2 32" using x0 by simp
    from double_rate_error [OF this] x0 rate show ?thesis by auto
  qed
  have zero: "eliminationRate (filter_record b a fn ft ps) = Finite 1" if "length a = 0"
    unfolding rate using that by (simp add: round_to_double_0 round_to_double_1)
  have same: "eliminationRate (filter_record b a fn ft ps) = Finite 0" if "length a = length b"
    unfolding rate using that assms by (simp add: round_to_double_0 round_to_double_1)
  show ?thesis
    using rate bound zero same by (simp add: filtersApplied_recordFiltering filter_record_def)
qed

text \<open>
  C10. After \<open>k \<ge> 1\<close> calls of \<^verbatim>\<open>recordFiltering\<close> on a step, \<^verbatim>\<open>candidatesIn\<close> and
  \<^verbatim>\<open>candidatesOut\<close> are the lengths of the two lists of the last call, and
  \<^verbatim>\<open>filtersApplied\<close> has grown by one record per call, in call order.
\<close>

theorem recordFiltering_sequence:
  assumes "calls \<noteq> []"
  shows "candidatesIn (foldl apply_filtering s calls) = Some (int (length (before (last calls))))
    \<and> candidatesOut (foldl apply_filtering s calls) = Some (int (length (after (last calls))))
    \<and> filtersApplied (foldl apply_filtering s calls) = filtersApplied s @ map record_of_call calls
    \<and> length (filtersApplied (foldl apply_filtering s calls)) =
        length (filtersApplied s) + length calls"
proof -
  from assms obtain cs c where calls: "calls = cs @ [c]"
    by (cases calls rule: rev_cases) auto
  have "candidatesIn (foldl apply_filtering s calls) = Some (int (length (before (last calls))))"
    unfolding calls foldl_apply_filtering_snoc
    by (simp add: apply_filtering_def candidatesIn_recordFiltering)
  moreover have "candidatesOut (foldl apply_filtering s calls) =
      Some (int (length (after (last calls))))"
    unfolding calls foldl_apply_filtering_snoc
    by (simp add: apply_filtering_def candidatesOut_recordFiltering)
  ultimately show ?thesis
    by (simp add: filtersApplied_foldl)
qed

theorem recordCandidates_keepAll_accepted_witness:
  "keepAllOutputs (step.sampling demo_step)
   \<and> length (retained_by demo_step (recordCandidates [Ref 1, Ref 2, Ref 3] None demo_step)) = 3
   \<and> map data (retained_by demo_step (recordCandidates [Ref 1, Ref 2, Ref 3] None demo_step)) =
       [Ref 1, Ref 2, Ref 3]
   \<and> candidatesOut (recordCandidates [Ref 1, Ref 2, Ref 3] None demo_step) = Some 3"
proof -
  have k: "keepAllOutputs (step.sampling demo_step)"
    by (simp add: demo_step_def new_Step_def default_sampling_def)
  show ?thesis
    using k recordCandidates_keepAll_accepted [OF k, of None "[Ref 1, Ref 2, Ref 3]"] by simp
qed

theorem recordFiltering_partition_witness:
  "Ref 1 \<in> set [Ref 1, Ref 2, Ref 3]
   \<and> (Ref 1 \<in> set (rejected_of [Ref 1, Ref 2, Ref 3] [Ref 2, Ref 4])) \<noteq>
       (Ref 1 \<in> set [Ref 2, Ref 4])
   \<and> rejected_of [Ref 1, Ref 2, Ref 3] [Ref 2, Ref 4] = [Ref 1, Ref 3]"
  using recordFiltering_partition
          [of "[Ref 1, Ref 2, Ref 3]" "[Ref 2, Ref 4]" "''price_range''" "''range''" None demo_step]
  by simp

theorem recordFiltering_elimination_rate_witness:
  "0 < length (replicate 5000 (Ref 0))
   \<and> length (replicate 450 (Ref 0)) < 2 ^ 32
   \<and> eliminationRate (filter_record (replicate 5000 (Ref 0)) (replicate 450 (Ref 0))
        ''price_range'' ''range'' None) = Finite (8196551321814303 / 9007199254740992)
   \<and> round_to_double (91 / 100) = Finite (8196551321814303 / 9007199254740992)
   \<and> 0 < length (replicate 120 (Ref 0))
   \<and> length (replicate 4 (Ref 0)) < 2 ^ 32
   \<and> eliminationRate (filter_record (replicate 120 (Ref 0)) (replicate 4 (Ref 0))
        ''llm_relevance'' ''llm_eval'' None) = Finite (8706959279582959 / 9007199254740992)
   \<and> round_to_double (29 / 30) = Finite (8706959279582959 / 9007199254740992)
   \<and> length ([] :: jsval list) = 0
   \<and> eliminationRate (filter_record (replicate 120 (Ref 0)) [] ''none'' ''range'' None) = Finite 1
   \<and> length (replicate 120 (Ref 0)) = length (replicate 120 (Ref 1))
   \<and> eliminationRate (filter_record (replicate 120 (Ref 0)) (replicate 120 (Ref 1)) ''all'' ''range'' None) = Finite 0"
proof -
  have h1: "0 < length (replicate 5000 (Ref 0))" by simp
  have h2: "0 < length (replicate 120 (Ref 0))" by simp
  show ?thesis
    using recordFiltering_elimination_rate [OF h1, of "replicate 450 (Ref 0)" "''price_range''" "''range''" None demo_step]
          recordFiltering_elimination_rate [OF h2, of "replicate 4 (Ref 0)" "''llm_relevance''" "''llm_eval''" None demo_step]
          recordFiltering_elimination_rate [OF h2, of "[]" "''none''" "''range''" None demo_step]
          recordFiltering_elimination_rate [OF h2, of "replicate 120 (Ref 1)" "''all''" "''range''" None demo_step]
    by (simp add: filter_record_def rate_5000_450 rate_120_4 double_91_100 double_29_30
        round_to_double_0 round_to_double_1)
qed

theorem recordFiltering_sequence_witness:
  "[demo_call [Ref 1, Ref 2, Ref 3] [Ref 1, Ref 2] ''price_range'',
    demo_call [Ref 1, Ref 2] [Ref 2] ''minimum_rating''] \<noteq> []
   \<and> candidatesIn (foldl apply_filtering demo_step
        [demo_call [Ref 1, Ref 2, Ref 3] [Ref 1, Ref 2] ''price_range'',
         demo_call [Ref 1, Ref 2] [Ref 2] ''minimum_rating'']) = Some 2
   \<and> candidatesOut (foldl apply_filtering demo_step
        [demo_call [Ref 1, Ref 2, Ref 3] [Ref 1, Ref 2] ''price_range'',
         demo_call [Ref 1, Ref 2] [Ref 2] ''minimum_rating'']) = Some 1
   \<and> map filterName (filtersApplied (foldl apply_filtering demo_step
        [demo_call [Ref 1, Ref 2, Ref 3] [Ref 1, Ref 2] ''price_range'',
         demo_call [Ref 1, Ref 2] [Ref 2] ''minimum_rating''])) =
       [''price_range'', ''minimum_rating'']"
proof -
  have h: "[demo_call [Ref 1, Ref 2, Ref 3] [Ref 1, Ref 2] ''price_range'',
            demo_call [Ref 1, Ref 2] [Ref 2] ''minimum_rating''] \<noteq> []"
    by simp
  have f: "filtersApplied demo_step = []"
    by (simp add: demo_step_def new_Step_def)
  show ?thesis
    using recordFiltering_sequence [OF h, of demo_step]
    by (simp add: f demo_call_def record_of_call_def filter_record_def)
qed

subsection \<open>The two candidate counts of a step\<close>

lemma counts_ordered_recordFiltering:
  "counts_ordered (recordFiltering b a fn ft ps s) \<longleftrightarrow> length a \<le> length b"
  by (simp add: counts_ordered_def candidatesIn_recordFiltering candidatesOut_recordFiltering)

lemma candidatesIn_recordLLMDecision:
  "candidatesIn (recordLLMDecision why n s) = candidatesIn s"
  by (simp add: recordLLMDecision_def Let_def split: option.splits)

lemma candidatesOut_recordLLMDecision:
  "candidatesOut (recordLLMDecision why n s) =
     (case n of None \<Rightarrow> candidatesOut s | Some k \<Rightarrow> Some k)"
  by (simp add: recordLLMDecision_def Let_def split: option.splits)

lemma counts_ordered_recordCandidates_accepted:
  "st_arg = None \<or> st_arg = Some Accepted \<Longrightarrow>
   counts_ordered (recordCandidates cs st_arg s) = fits (int (length cs)) s"
  unfolding counts_ordered_def fits_def candidatesIn_recordCandidates
    candidatesOut_recordCandidates
  by (auto split: option.splits)

lemma counts_ordered_recordCandidates_other:
  "st_arg = Some Rejected \<or> st_arg = Some FilteredOut \<Longrightarrow>
   counts_ordered (recordCandidates cs st_arg s) = counts_ordered s"
  unfolding counts_ordered_def candidatesIn_recordCandidates candidatesOut_recordCandidates
  by (auto split: option.splits)

lemma counts_ordered_recordLLMDecision_Some:
  "counts_ordered (recordLLMDecision why (Some k) s) = fits k s"
  unfolding counts_ordered_def fits_def candidatesIn_recordLLMDecision
    candidatesOut_recordLLMDecision
  by (auto split: option.splits)

lemma counts_ordered_recordLLMDecision_None:
  "counts_ordered (recordLLMDecision why None s) = counts_ordered s"
  unfolding counts_ordered_def candidatesIn_recordLLMDecision candidatesOut_recordLLMDecision
  by (auto split: option.splits)

text \<open>
  C6, as stated, fails: no recording operation compares the two counts. After a
  \<^verbatim>\<open>recordFiltering\<close> from two candidates to one the counts are ordered; a following
  \<^verbatim>\<open>recordCandidates\<close> of three accepted candidates overwrites \<^verbatim>\<open>candidatesOut\<close> with 3
  while \<^verbatim>\<open>candidatesIn\<close> stays 2.
\<close>

theorem counts_ordered_not_preserved:
  "counts_ordered (recordFiltering [Ref 1, Ref 2] [Ref 1] ''price_range'' ''range'' None demo_step)
   \<and> \<not> counts_ordered (recordCandidates [Ref 1, Ref 2, Ref 3] None
         (recordFiltering [Ref 1, Ref 2] [Ref 1] ''price_range'' ''range'' None demo_step))"
  by (simp add: counts_ordered_def candidatesIn_recordCandidates candidatesOut_recordCandidates
      candidatesIn_recordFiltering candidatesOut_recordFiltering)

text \<open>
  C6, amended. \<^verbatim>\<open>recordFiltering\<close> sets both counts to the lengths of its two lists, so
  afterwards \<^verbatim>\<open>candidatesOut \<le> candidatesIn\<close> holds exactly when the after-list is not
  longer than the before-list. \<^verbatim>\<open>recordCandidates\<close> with disposition \<^verbatim>\<open>accepted\<close> and
  \<^verbatim>\<open>recordLLMDecision\<close> with a count overwrite \<^verbatim>\<open>candidatesOut\<close> without looking at
  \<^verbatim>\<open>candidatesIn\<close>, so afterwards the inequality holds exactly when the new count does not
  exceed \<^verbatim>\<open>candidatesIn\<close> (or that is absent). \<^verbatim>\<open>recordCandidates\<close> with another
  disposition and \<^verbatim>\<open>recordLLMDecision\<close> without a count leave both counts as they were.
\<close>

theorem counts_ordered_after_recording:
  "(counts_ordered (recordFiltering b a fn ft ps s) \<longleftrightarrow> length a \<le> length b)
   \<and> counts_ordered (recordCandidates cs None s) = fits (int (length cs)) s
   \<and> counts_ordered (recordCandidates cs (Some Accepted) s) = fits (int (length cs)) s
   \<and> counts_ordered (recordCandidates cs (Some Rejected) s) = counts_ordered s
   \<and> counts_ordered (recordCandidates cs (Some FilteredOut) s) = counts_ordered s
   \<and> counts_ordered (recordLLMDecision why (Some k) s) = fits k s
   \<and> counts_ordered (recordLLMDecision why None s) = counts_ordered s"
  by (simp add: counts_ordered_recordFiltering counts_ordered_recordCandidates_accepted
      counts_ordered_recordCandidates_other counts_ordered_recordLLMDecision_Some
      counts_ordered_recordLLMDecision_None)

section \<open>Properties of the run lifecycle and of the transport\<close>

lemma send_returns:
  "send stringify r w =
     (case stringify r of
        Inl (Thrown msg) \<Rightarrow> Inr (w\<lparr>console := console w @ [''Error sending trace '' @ msg]\<rparr>)
      | Inr text \<Rightarrow>
          Inr (w\<lparr>in_flight := in_flight w @ [\<lparr>url = run.apiUrl r @ ''/runs'', body = text\<rparr>]\<rparr>))"
  by (simp add: send_def send_try_def split: sum.splits exn.splits)

lemma send_Inr: "\<exists>w'. send stringify r w = Inr w'"
  by (simp add: send_returns split: sum.splits exn.splits)

lemma complete_Inr:
  "\<exists>w'. complete stringify out now rw = Inr (completed_run out now (fst rw), w')"
  using send_Inr [of stringify "completed_run out now (fst rw)" "snd rw"]
  by (auto simp: complete_def)

lemma fail_Inr:
  "\<exists>w'. fail stringify message now rw = Inr (failed_run message now (fst rw), w')"
  using send_Inr [of stringify "failed_run message now (fst rw)" "snd rw"]
  by (auto simp: fail_def)

lemma lifecycle_complete:
  "lifecycle (complete stringify out now rw) = Some (Completed, Some now)"
  using complete_Inr [of stringify out now rw]
  by (auto simp: lifecycle_def completed_run_def)

lemma lifecycle_fail:
  "lifecycle (fail stringify message now rw) = Some (Failed, Some now)"
  using fail_Inr [of stringify message now rw]
  by (auto simp: lifecycle_def failed_run_def)

lemma lifecycle_startRun:
  "lifecycle (Inr (startRun sdk name inp md uuid now, w)) = Some (Running, None)"
  by (simp add: lifecycle_def startRun_def new_Run_def)

lemma lifecycle_other:
  "\<not> is_transition op \<Longrightarrow> lifecycle (apply_run_op stringify op rw) = lifecycle (Inr rw)"
  by (cases op) (simp_all add: lifecycle_def addStep_def on_step_def Let_def)

lemma apply_run_op_Inr: "\<exists>rw'. apply_run_op stringify op rw = Inr rw'"
proof (cases op)
  case (Complete out now)
  then show ?thesis using complete_Inr [of stringify out now rw] by auto
next
  case (Fail message now)
  then show ?thesis using fail_Inr [of stringify message now rw] by auto
qed simp_all

lemma run_ops_Inr: "\<exists>rw'. run_ops stringify ops rw = Inr rw'"
proof (induction ops arbitrary: rw)
  case Nil
  show ?case by simp
next
  case (Cons op ops)
  obtain rw1 where "apply_run_op stringify op rw = Inr rw1"
    using apply_run_op_Inr by blast
  then show ?case using Cons.IH [of rw1] by simp
qed

lemma run_ops_append:
  "run_ops stringify (ops @ ops') rw =
     (case run_ops stringify ops rw of
        Inl e \<Rightarrow> Inl e
      | Inr rw' \<Rightarrow> run_ops stringify ops' rw')"
  by (induction ops arbitrary: rw) (simp_all split: sum.splits)

lemma lifecycle_run_ops_others:
  "\<forall>op \<in> set ops. \<not> is_transition op \<Longrightarrow>
   lifecycle (run_ops stringify ops rw) = lifecycle (Inr rw)"
proof (induction ops arbitrary: rw)
  case Nil
  show ?case by simp
next
  case (Cons op ops)
  obtain rw1 where rw1: "apply_run_op stringify op rw = Inr rw1"
    using apply_run_op_Inr by blast
  have "lifecycle (Inr rw1) = lifecycle (Inr rw)"
    using lifecycle_other [of op stringify rw] Cons.prems rw1 by simp
  then show ?case using Cons rw1 by simp
qed

lemma lifecycle_run_ops_last:
  "lifecycle (run_ops stringify (ops @ [op]) rw) =
     (case run_ops stringify ops rw of
        Inl e \<Rightarrow> None
      | Inr rw' \<Rightarrow> lifecycle (apply_run_op stringify op rw'))"
  by (simp add: run_ops_append lifecycle_def split: sum.splits)

text \<open>
  C1, as stated, fails: \<^verbatim>\<open>complete\<close> and \<^verbatim>\<open>fail\<close> do not look at the status. A run that
  was completed at time 2000 and on which \<^verbatim>\<open>fail\<close> is then invoked at time 3000 has status
  \<^verbatim>\<open>failed\<close> and completion timestamp 3000.
\<close>

theorem complete_then_fail_changes_status:
  "lifecycle (run_ops stringify_ok [Complete (Ref 1) 2000] (demo_run, quiet)) =
     Some (Completed, Some 2000)
   \<and> lifecycle (run_ops stringify_ok [Complete (Ref 1) 2000, Fail ''boom'' 3000]
        (demo_run, quiet)) = Some (Failed, Some 3000)"
  by (simp add: complete_def fail_def send_returns stringify_ok_def lifecycle_def
      completed_run_def failed_run_def)

text \<open>
  C1, amended. A run is created with status \<^verbatim>\<open>running\<close> and no completion timestamp, and
  every sequence of operations other than \<^verbatim>\<open>complete\<close> and \<^verbatim>\<open>fail\<close> leaves both as they
  are. Every invocation of \<^verbatim>\<open>complete\<close> sets the status to \<^verbatim>\<open>completed\<close>, every invocation
  of \<^verbatim>\<open>fail\<close> sets it to \<^verbatim>\<open>failed\<close>, and both set the completion timestamp to the time of
  the call, whatever operations came before: the status and timestamp of a run are those of
  the most recent of the two calls.
\<close>

theorem run_lifecycle:
  "lifecycle (Inr (startRun sdk name inp md uuid t0, w)) = Some (Running, None)
   \<and> ((\<forall>op \<in> set ops. \<not> is_transition op) \<longrightarrow>
        lifecycle (run_ops stringify ops rw) = lifecycle (Inr rw))
   \<and> lifecycle (run_ops stringify (ops @ [Complete out now]) rw) = Some (Completed, Some now)
   \<and> lifecycle (run_ops stringify (ops @ [Fail message now]) rw) = Some (Failed, Some now)"
proof -
  obtain rw1 where rw1: "run_ops stringify ops rw = Inr rw1"
    using run_ops_Inr by blast
  have c: "lifecycle (run_ops stringify (ops @ [Complete out now]) rw) =
      Some (Completed, Some now)"
    unfolding lifecycle_run_ops_last rw1 by (simp add: lifecycle_complete)
  have f: "lifecycle (run_ops stringify (ops @ [Fail message now]) rw) =
      Some (Failed, Some now)"
    unfolding lifecycle_run_ops_last rw1 by (simp add: lifecycle_fail)
  show ?thesis
    using c f lifecycle_startRun lifecycle_run_ops_others by blast
qed

theorem run_lifecycle_witness:
  "\<not> is_transition (AddStep ''search'' (Some Api) ''step-1'' 1100)
   \<and> \<not> is_transition (OnStep 0 (RecordInput (Ref 5)))
   \<and> lifecycle (run_ops stringify_ok
        [AddStep ''search'' (Some Api) ''step-1'' 1100, OnStep 0 (RecordInput (Ref 5))]
        (demo_run, quiet)) = Some (Running, None)
   \<and> lifecycle (run_ops stringify_ok
        ([AddStep ''search'' (Some Api) ''step-1'' 1100] @ [Complete (Ref 1) 2000])
        (demo_run, quiet)) = Some (Completed, Some 2000)"
proof -
  have h: "\<forall>op \<in> set [AddStep ''search'' (Some Api) ''step-1'' 1100,
      OnStep 0 (RecordInput (Ref 5))]. \<not> is_transition op"
    by simp
  have s: "lifecycle (Inr (demo_run, quiet)) = Some (Running, None)"
    by (simp add: lifecycle_def demo_run_def startRun_def new_Run_def)
  show ?thesis
    using h s
      run_lifecycle [of "new_XRaySDK \<lparr>run_config.apiUrl = None, run_config.sampling = None\<rparr>"
        "''competitor_selection''" "Ref 0" None "''run-1''" 1000 quiet
        "[AddStep ''search'' (Some Api) ''step-1'' 1100, OnStep 0 (RecordInput (Ref 5))]"
        stringify_ok "(demo_run, quiet)"]
      run_lifecycle [of "new_XRaySDK \<lparr>run_config.apiUrl = None, run_config.sampling = None\<rparr>"
        "''competitor_selection''" "Ref 0" None "''run-1''" 1000 quiet
        "[AddStep ''search'' (Some Api) ''step-1'' 1100]" stringify_ok "(demo_run, quiet)"
        "Ref 1" 2000]
    by simp
qed

text \<open>
  C5, as stated, fails for one of the failures it lists: a response with a status outside
  2xx resolves the promise of \<^verbatim>\<open>fetch\<close>, so the \<^verbatim>\<open>.catch\<close> handler does not run and
  nothing is logged. After \<^verbatim>\<open>complete\<close> on a quiet console, a response with status 500
  leaves the console empty.
\<close>

theorem non_2xx_response_not_logged:
  "complete stringify_ok (Ref 1) 2000 (demo_run, quiet) =
     Inr (completed_run (Ref 1) 2000 demo_run,
          quiet\<lparr>in_flight := [\<lparr>url = ''http://localhost:3000/api/runs'', body = ''{id:run-1}''\<rparr>]\<rparr>)
   \<and> settle (Resolved 500)
         (quiet\<lparr>in_flight := [\<lparr>url = ''http://localhost:3000/api/runs'', body = ''{id:run-1}''\<rparr>]\<rparr>) =
       quiet
   \<and> console quiet = []"
  by (simp add: complete_def send_returns stringify_ok_def settle_def quiet_def
      completed_run_def demo_run_def startRun_def new_Run_def new_XRaySDK_def)

text \<open>
  C5, amended. \<^verbatim>\<open>complete\<close> and \<^verbatim>\<open>fail\<close> return normally whatever happens to the trace,
  and without waiting for its delivery. When the payload cannot be serialized the exception
  is caught inside \<^verbatim>\<open>send\<close> and the only effect is a line on the console. Otherwise they
  return with the request still in flight, before its promise settles; when it later
  rejects (network error, timeout) the only effect is a line on the console, and when it
  resolves, with whatever HTTP status, nothing is written and nothing is raised. In every
  case the run that the caller holds is the one the assignments produced.
\<close>

theorem transport_never_raises:
  "(\<exists>r' w'. complete stringify out now (r, w) = Inr (r', w'))
   \<and> (\<exists>r' w'. fail stringify message now (r, w) = Inr (r', w'))
   \<and> (stringify (completed_run out now r) = Inl (Thrown msg) \<longrightarrow>
        complete stringify out now (r, w) =
          Inr (completed_run out now r,
               w\<lparr>console := console w @ [''Error sending trace '' @ msg]\<rparr>))
   \<and> (stringify (completed_run out now r) = Inr text \<longrightarrow>
        complete stringify out now (r, w) =
          Inr (completed_run out now r,
               w\<lparr>in_flight := in_flight w @ [\<lparr>url = run.apiUrl r @ ''/runs'', body = text\<rparr>]\<rparr>))
   \<and> (stringify (failed_run message now r) = Inl (Thrown msg) \<longrightarrow>
        fail stringify message now (r, w) =
          Inr (failed_run message now r,
               w\<lparr>console := console w @ [''Error sending trace '' @ msg]\<rparr>))
   \<and> (stringify (failed_run message now r) = Inr text \<longrightarrow>
        fail stringify message now (r, w) =
          Inr (failed_run message now r,
               w\<lparr>in_flight := in_flight w @ [\<lparr>url = run.apiUrl r @ ''/runs'', body = text\<rparr>]\<rparr>))
   \<and> settle (RejectedWith msg) (w\<lparr>in_flight := rq # rest\<rparr>) =
        w\<lparr>console := console w @ [''FAILED TO SEND TRACE '' @ msg], in_flight := rest\<rparr>
   \<and> settle (Resolved code) (w\<lparr>in_flight := rq # rest\<rparr>) = w\<lparr>in_flight := rest\<rparr>"
proof -
  have 1: "\<exists>r' w'. complete stringify out now (r, w) = Inr (r', w')"
    using complete_Inr [of stringify out now "(r, w)"] by auto
  have 2: "\<exists>r' w'. fail stringify message now (r, w) = Inr (r', w')"
    using fail_Inr [of stringify message now "(r, w)"] by auto
  have 3: "stringify (completed_run out now r) = Inl (Thrown msg) \<longrightarrow>
        complete stringify out now (r, w) =
          Inr (completed_run out now r,
               w\<lparr>console := console w @ [''Error sending trace '' @ msg]\<rparr>)"
    by (simp add: complete_def send_returns)
  have 4: "stringify (completed_run out now r) = Inr text \<longrightarrow>
        complete stringify out now (r, w) =
          Inr (completed_run out now r,
               w\<lparr>in_flight := in_flight w @ [\<lparr>url = run.apiUrl r @ ''/runs'', body = text\<rparr>]\<rparr>)"
    by (simp add: complete_def send_returns completed_run_def)
  have 5: "stringify (failed_run message now r) = Inl (Thrown msg) \<longrightarrow>
        fail stringify message now (r, w) =
          Inr (failed_run message now r,
               w\<lparr>console := console w @ [''Error sending trace '' @ msg]\<rparr>)"
    by (simp add: fail_def send_returns)
  have 6: "stringify (failed_run message now r) = Inr text \<longrightarrow>
        fail stringify message now (r, w) =
          Inr (failed_run message now r,
               w\<lparr>in_flight := in_flight w @ [\<lparr>url = run.apiUrl r @ ''/runs'', body = text\<rparr>]\<rparr>)"
    by (simp add: fail_def send_returns failed_run_def)
  have 7: "settle (RejectedWith msg) (w\<lparr>in_flight := rq # rest\<rparr>) =
        w\<lparr>console := console w @ [''FAILED TO SEND TRACE '' @ msg], in_flight := rest\<rparr>"
    by (simp add: settle_def)
  have 8: "settle (Resolved code) (w\<lparr>in_flight := rq # rest\<rparr>) = w\<lparr>in_flight := rest\<rparr>"
    by (simp add: settle_def)
  show ?thesis using 1 2 3 4 5 6 7 8 by blast
qed

theorem transport_never_raises_witness:
  "stringify_circular (completed_run (Ref 1) 2000 demo_run) =
     Inl (Thrown ''TypeError: Converting circular structure to JSON'')
   \<and> complete stringify_circular (Ref 1) 2000 (demo_run, quiet) =
       Inr (completed_run (Ref 1) 2000 demo_run,
            quiet\<lparr>console := [''Error sending trace TypeError: Converting circular structure to JSON'']\<rparr>)
   \<and> stringify_circular (failed_run ''boom'' 2000 demo_run) =
     Inl (Thrown ''TypeError: Converting circular structure to JSON'')
   \<and> fail stringify_circular ''boom'' 2000 (demo_run, quiet) =
       Inr (failed_run ''boom'' 2000 demo_run,
            quiet\<lparr>console := [''Error sending trace TypeError: Converting circular structure to JSON'']\<rparr>)
   \<and> stringify_ok (completed_run (Ref 1) 2000 demo_run) = Inr ''{id:run-1}''
   \<and> complete stringify_ok (Ref 1) 2000 (demo_run, quiet) =
       Inr (completed_run (Ref 1) 2000 demo_run,
            quiet\<lparr>in_flight := [\<lparr>url = ''http://localhost:3000/api/runs'', body = ''{id:run-1}''\<rparr>]\<rparr>)
   \<and> stringify_ok (failed_run ''boom'' 2000 demo_run) = Inr ''{id:run-1}''
   \<and> fail stringify_ok ''boom'' 2000 (demo_run, quiet) =
       Inr (failed_run ''boom'' 2000 demo_run,
            quiet\<lparr>in_flight := [\<lparr>url = ''http://localhost:3000/api/runs'', body = ''{id:run-1}''\<rparr>]\<rparr>)"
proof -
  have c: "stringify_circular (completed_run (Ref 1) 2000 demo_run) =
      Inl (Thrown ''TypeError: Converting circular structure to JSON'')"
    and c': "stringify_circular (failed_run ''boom'' 2000 demo_run) =
      Inl (Thrown ''TypeError: Converting circular structure to JSON'')"
    by (simp_all add: stringify_circular_def)
  have k: "stringify_ok (completed_run (Ref 1) 2000 demo_run) = Inr ''{id:run-1}''"
    and k': "stringify_ok (failed_run ''boom'' 2000 demo_run) = Inr ''{id:run-1}''"
    by (simp_all add: stringify_ok_def completed_run_def failed_run_def demo_run_def
        startRun_def new_Run_def)
  have u: "run.apiUrl demo_run = ''http://localhost:3000/api''"
    by (simp add: demo_run_def startRun_def new_Run_def new_XRaySDK_def)
  have q: "console quiet = []" "in_flight quiet = []"
    by (simp_all add: quiet_def)
  show ?thesis
    using c c' k k'
      transport_never_raises [of stringify_circular "Ref 1" 2000 demo_run quiet "''boom''"
        "''TypeError: Converting circular structure to JSON''"]
      transport_never_raises [of stringify_ok "Ref 1" 2000 demo_run quiet "''boom''" _
        "''{id:run-1}''"]
    by (simp add: u q)
qed

section \<open>Properties of the ingestion\<close>

lemma ins_all_append:
  "ins_all refuses (xs @ ys) s =
     (case ins_all refuses xs s of
        (Some msg, s') \<Rightarrow> (Some msg, s')
      | (None, s') \<Rightarrow> ins_all refuses ys s')"
  by (induction xs arbitrary: s) (auto split: prod.splits option.splits)

lemma insert_candidates_ins_all:
  "insert_candidates refuses step cs s =
     ins_all refuses (map (\<lambda>c. (Candidates, candidate_params step c)) cs) s"
  by (induction cs arbitrary: s) (auto simp: insert_stmt_def split: prod.splits option.splits)

lemma insert_steps_ins_all:
  "insert_steps refuses run sts s = ins_all refuses (concat (map (rows_of_step run) sts)) s"
proof (induction sts arbitrary: s)
  case Nil
  show ?case by simp
next
  case (Cons st sts)
  show ?case
    by (cases "step_candidates st")
       (auto simp: Cons.IH rows_of_step_def insert_stmt_def ins_all_append
          insert_candidates_ins_all split: prod.splits option.splits)
qed

lemma ins_all_accepted:
  "tx s = Some rows \<Longrightarrow> first_refusal refuses rows xs = None \<Longrightarrow>
   ins_all refuses xs s =
     (None, s\<lparr>tx := Some (rows @ xs), received := received s @ map insert_stmt xs\<rparr>)"
proof (induction xs arbitrary: s rows)
  case Nil
  then show ?case by simp
next
  case (Cons x xs)
  from Cons.prems(2) have r: "refuses rows x = None"
    and f: "first_refusal refuses (rows @ [x]) xs = None"
    by (auto split: option.splits)
  let ?s1 = "s\<lparr>tx := Some (rows @ [x]), received := received s @ [insert_stmt x]\<rparr>"
  have q: "query refuses (insert_stmt x) s = (None, ?s1)"
    using Cons.prems(1) r by (cases x) (simp add: insert_stmt_def)
  have "tx ?s1 = Some (rows @ [x])" by simp
  from Cons.IH [OF this f] show ?case
    by (simp add: q)
qed

lemma ins_all_refused:
  "tx s = Some rows \<Longrightarrow> first_refusal refuses rows xs = Some msg \<Longrightarrow>
   \<exists>s'. ins_all refuses xs s = (Some msg, s') \<and> visible s' = visible s
     \<and> received s' = received s @ map insert_stmt (attempted refuses rows xs)"
proof (induction xs arbitrary: s rows)
  case Nil
  then show ?case by simp
next
  case (Cons x xs)
  show ?case
  proof (cases "refuses rows x")
    case (Some m)
    with Cons.prems show ?thesis
      by (cases x) (simp add: insert_stmt_def)
  next
    case None
    with Cons.prems(2) have f: "first_refusal refuses (rows @ [x]) xs = Some msg"
      by simp
    let ?s1 = "s\<lparr>tx := Some (rows @ [x]), received := received s @ [insert_stmt x]\<rparr>"
    have q: "query refuses (insert_stmt x) s = (None, ?s1)"
      using Cons.prems(1) None by (cases x) (simp add: insert_stmt_def)
    have "tx ?s1 = Some (rows @ [x])" by simp
    from Cons.IH [OF this f] show ?thesis
      by (auto simp: q None)
  qed
qed

lemma post_runs_try_ins_all:
  "tx s = None \<Longrightarrow>
   post_runs_try refuses run s =
     (case ins_all refuses (rows_of run)
             (s\<lparr>tx := Some (visible s), received := received s @ [BEGIN]\<rparr>) of
        (Some msg, s') \<Rightarrow> (Some msg, s')
      | (None, s') \<Rightarrow> query refuses COMMIT s')"
  by (cases "run_steps run")
     (auto simp: post_runs_try_def rows_of_def insert_stmt_def insert_steps_ins_all
        split: prod.splits option.splits)

lemma first_refusal_None_iff:
  "first_refusal refuses rows xs = None \<longleftrightarrow>
     (\<forall>i < length xs. refuses (rows @ take i xs) (xs ! i) = None)"
proof (induction xs arbitrary: rows)
  case Nil
  show ?case by simp
next
  case (Cons x xs)
  show ?case
  proof (cases "refuses rows x")
    case (Some m)
    then have "\<not> (\<forall>i < length (x # xs). refuses (rows @ take i (x # xs)) ((x # xs) ! i) = None)"
      by (auto intro: exI [of _ 0])
    with Some show ?thesis by simp
  next
    case None
    have "(\<forall>i < length (x # xs). refuses (rows @ take i (x # xs)) ((x # xs) ! i) = None) \<longleftrightarrow>
          (\<forall>i < length xs. refuses ((rows @ [x]) @ take i xs) (xs ! i) = None)"
      using None by (auto simp: All_less_Suc2)
    with None Cons.IH [of "rows @ [x]"] show ?thesis by simp
  qed
qed

text \<open>
  C2. On a connection with no open transaction, \<^verbatim>\<open>POST /runs\<close> sends \<^verbatim>\<open>BEGIN\<close>, then the
  insert of the run row, then for each step of the body in order the insert of its row
  followed by the inserts of its candidates. If the store accepts every insert, the handler
  sends \<^verbatim>\<open>COMMIT\<close>, all the rows become visible together and the answer is 201 with the
  identifier of the run. If the store refuses one, no later insert is sent, the handler
  sends \<^verbatim>\<open>ROLLBACK\<close>, the visible rows are the ones from before the request, and the answer
  is 500 with the message of the store's error.
\<close>

theorem post_runs_atomic:
  assumes "tx s = None"
  shows "(first_refusal refuses (visible s) (rows_of run) = None \<longrightarrow>
            post_runs refuses run s =
              (Response 201 (RunRecorded (property (run_props run) ''id'')),
               s\<lparr>visible := visible s @ rows_of run,
                  received := received s @ [BEGIN] @ map insert_stmt (rows_of run) @ [COMMIT]\<rparr>))
       \<and> (first_refusal refuses (visible s) (rows_of run) = Some msg \<longrightarrow>
            post_runs refuses run s =
              (Response 500 (ErrorBody msg),
               s\<lparr>received := received s @ [BEGIN]
                    @ map insert_stmt (attempted refuses (visible s) (rows_of run)) @ [ROLLBACK]\<rparr>))
       \<and> ((first_refusal refuses (visible s) (rows_of run) = None) =
            (\<forall>i < length (rows_of run).
               refuses (visible s @ take i (rows_of run)) (rows_of run ! i) = None))"
proof -
  let ?s0 = "s\<lparr>tx := Some (visible s), received := received s @ [BEGIN]\<rparr>"
  have t0: "tx ?s0 = Some (visible s)" by simp
  have ok: "post_runs refuses run s =
              (Response 201 (RunRecorded (property (run_props run) ''id'')),
               s\<lparr>visible := visible s @ rows_of run,
                  received := received s @ [BEGIN] @ map insert_stmt (rows_of run) @ [COMMIT]\<rparr>)"
    if "first_refusal refuses (visible s) (rows_of run) = None"
  proof -
    have "post_runs_try refuses run s =
        (None, s\<lparr>visible := visible s @ rows_of run,
                 received := received s @ [BEGIN] @ map insert_stmt (rows_of run) @ [COMMIT]\<rparr>)"
      using assms
      by (simp add: post_runs_try_ins_all [OF assms] ins_all_accepted [OF t0 that])
    then show ?thesis
      by (simp add: post_runs_def)
  qed
  have ko: "post_runs refuses run s =
              (Response 500 (ErrorBody msg),
               s\<lparr>received := received s @ [BEGIN]
                    @ map insert_stmt (attempted refuses (visible s) (rows_of run)) @ [ROLLBACK]\<rparr>)"
    if "first_refusal refuses (visible s) (rows_of run) = Some msg"
  proof -
    from ins_all_refused [OF t0 that] obtain s' where
      i: "ins_all refuses (rows_of run) ?s0 = (Some msg, s')"
      and v: "visible s' = visible s"
      and r: "received s' = received s @ [BEGIN]
                @ map insert_stmt (attempted refuses (visible s) (rows_of run))"
      by auto
    have rb: "snd (query refuses ROLLBACK s') =
        s\<lparr>received := received s @ [BEGIN]
             @ map insert_stmt (attempted refuses (visible s) (rows_of run)) @ [ROLLBACK]\<rparr>"
      using assms by (intro store.equality) (simp_all add: v r)
    have "post_runs_try refuses run s = (Some msg, s')"
      by (simp add: post_runs_try_ins_all [OF assms] i)
    then show ?thesis
      unfolding post_runs_def using rb by simp
  qed
  show ?thesis
    using ok ko first_refusal_None_iff [of refuses "visible s" "rows_of run"] by blast
qed

lemma rows_of_demo_body:
  "rows_of demo_body =
     [(Runs, run_params demo_body),
      (Steps, step_params demo_body demo_step_json),
      (Candidates, candidate_params demo_step_json demo_cand_json)]"
  by (simp add: rows_of_def rows_of_step_def demo_body_def demo_step_json_def)

lemma demo_keys:
  "hd (run_params demo_body) = Raw (Str ''run-1'')"
  "hd (step_params demo_body demo_step_json) = Raw (Str ''step-1'')"
  "hd (candidate_params demo_step_json demo_cand_json) = Raw (Str ''step-1'')"
  by (simp_all add: run_params_def step_params_def candidate_params_def demo_body_def
      demo_step_json_def property_def)

lemma primary_keys_eq:
  "primary_keys rows (t, ps) =
     (if ps = [] then Some ''bind message supplies 0 parameters''
      else if hd ps = Raw Undefined \<or> hd ps = Raw Null
        then Some ''null value violates not-null constraint''
      else if t \<noteq> Candidates \<and> (t, hd ps) \<in> set (map (\<lambda>y. (fst y, hd (snd y))) rows)
        then Some ''duplicate key value violates unique constraint''
      else None)"
  by (cases ps) (simp_all add: primary_keys_def)

lemma params_nonempty:
  "run_params r \<noteq> []" "step_params r st \<noteq> []" "candidate_params st c \<noteq> []"
  by (simp_all add: run_params_def step_params_def candidate_params_def)

lemma demo_accept: "first_refusal primary_keys [] (rows_of demo_body) = None"
  unfolding rows_of_demo_body
  by (simp add: primary_keys_eq params_nonempty demo_keys)

lemma demo_refuse:
  "first_refusal primary_keys (rows_of demo_body) (rows_of demo_body) =
     Some ''duplicate key value violates unique constraint''"
  unfolding rows_of_demo_body
  by (simp add: primary_keys_eq params_nonempty demo_keys)

theorem post_runs_atomic_witness:
  "tx empty_store = None
   \<and> first_refusal primary_keys (visible empty_store) (rows_of demo_body) = None
   \<and> fst (post_runs primary_keys demo_body empty_store) = Response 201 (RunRecorded (Str ''run-1''))
   \<and> visible stored_once = rows_of demo_body
   \<and> tx stored_once = None
   \<and> first_refusal primary_keys (visible stored_once) (rows_of demo_body) =
       Some ''duplicate key value violates unique constraint''
   \<and> fst (post_runs primary_keys demo_body stored_once) =
       Response 500 (ErrorBody ''duplicate key value violates unique constraint'')
   \<and> visible (snd (post_runs primary_keys demo_body stored_once)) = visible stored_once
   \<and> tx (snd (post_runs primary_keys demo_body stored_once)) = None"
proof -
  have e: "tx empty_store = None" "visible empty_store = []"
    by (simp_all add: empty_store_def)
  have a: "first_refusal primary_keys (visible empty_store) (rows_of demo_body) = None"
    by (simp add: e demo_accept)
  note first = post_runs_atomic [OF e(1), of primary_keys demo_body]
  have s1: "visible stored_once = rows_of demo_body" "tx stored_once = None"
    using first a by (simp_all add: stored_once_def e)
  have r: "first_refusal primary_keys (visible stored_once) (rows_of demo_body) =
       Some ''duplicate key value violates unique constraint''"
    by (simp add: s1 demo_refuse)
  note second = post_runs_atomic [OF s1(2), of primary_keys demo_body "''duplicate key value violates unique constraint''"]
  have i: "property (run_props demo_body) ''id'' = Str ''run-1''"
    by (simp add: demo_body_def property_def)
  show ?thesis
    using e(1) a s1 r first second by (simp add: i)
qed

section \<open>Properties of the elimination query\<close>

lemma elim_where_meets: "elim_where t s = Inr (meets t s)"
  by (auto simp: elim_where_def meets_def in_positive_def rate_unguarded_def
      split: option.splits)

lemma select_where_total:
  "(\<And>x. p x = Inr (q x)) \<Longrightarrow> select_where p xs = Inr (filter q xs)"
  by (induction xs) simp_all

lemma elimination_query_eq:
  "elimination_query t runs stps = Inr (take 100 (sort_key desc_key (matching t runs stps)))"
  by (simp add: elimination_query_def matching_def
      select_where_total [where q = "\<lambda>rs. meets t (snd rs)"] elim_where_meets)

lemma set_joined:
  "set (joined runs stps) =
     {(r, s). r \<in> set runs \<and> s \<in> set stps \<and> run_row.id r = step_row.run_id s}"
  by (auto simp: joined_def)

lemma set_matching:
  "x \<in> set (matching t runs stps) \<longleftrightarrow>
     (\<exists>r \<in> set runs. \<exists>s \<in> set stps.
        run_row.id r = step_row.run_id s \<and> meets t s \<and> x = elim_select (r, s))"
proof
  assume "x \<in> set (matching t runs stps)"
  then obtain r s where "(r, s) \<in> set (joined runs stps)" "meets t s" "x = elim_select (r, s)"
    by (auto simp: matching_def)
  then show "\<exists>r \<in> set runs. \<exists>s \<in> set stps.
        run_row.id r = step_row.run_id s \<and> meets t s \<and> x = elim_select (r, s)"
    unfolding set_joined by blast
next
  assume "\<exists>r \<in> set runs. \<exists>s \<in> set stps.
        run_row.id r = step_row.run_id s \<and> meets t s \<and> x = elim_select (r, s)"
  then obtain r s where "(r, s) \<in> set (joined runs stps)" "meets t s" "x = elim_select (r, s)"
    unfolding set_joined by blast
  then show "x \<in> set (matching t runs stps)"
    by (force simp: matching_def)
qed

lemma rate_nullif_meets:
  "meets t s \<Longrightarrow> \<exists>q. rate_nullif s = Some q \<and> t \<le> q"
  by (auto simp: meets_def rate_nullif_def nullif_def split: option.splits)

lemma matching_rate:
  "x \<in> set (matching t runs stps) \<Longrightarrow> \<exists>q. elimination_rate x = Some q \<and> t \<le> q"
  using rate_nullif_meets by (fastforce simp: set_matching elim_select_def)

lemma take_sort_key_length: "length (take k (sort_key g xs)) = min k (length xs)"
  by simp

lemma take_sort_key_mset: "mset (take k (sort_key g xs)) \<subseteq># mset xs"
proof -
  have "mset (take k (sort_key g xs)) + mset (drop k (sort_key g xs)) = mset (sort_key g xs)"
    by (metis append_take_drop_id mset_append)
  then show ?thesis
    by (metis mset_sort mset_subset_eq_add_left)
qed

lemma take_sort_key_sorted: "sorted (map g (take k (sort_key g xs)))"
  by (metis sorted_sort_key sorted_wrt_take take_map)

lemma take_sort_key_dominates:
  assumes "x \<in> set (take k (sort_key g xs))"
    and "y \<in># mset xs - mset (take k (sort_key g xs))"
  shows "g x \<le> g y"
proof -
  let ?ys = "take k (sort_key g xs)" and ?zs = "drop k (sort_key g xs)"
  have "mset ?ys + mset ?zs = mset xs"
    by (metis append_take_drop_id mset_append mset_sort)
  then have "mset xs - mset ?ys = mset ?zs"
    by (metis add_diff_cancel_left')
  with assms(2) have y: "y \<in> set ?zs" by simp
  have "sorted (map g (?ys @ ?zs))" by simp
  then have "\<forall>a \<in> set ?ys. \<forall>b \<in> set ?zs. g a \<le> g b"
    by (simp only: map_append sorted_append) auto
  with assms(1) y show ?thesis by blast
qed

lemma desc_key_le:
  "elimination_rate x = Some a \<Longrightarrow> elimination_rate y = Some b \<Longrightarrow>
   desc_key x \<le> desc_key y \<longleftrightarrow> b \<le> a"
  by (simp add: desc_key_def)

lemma elimination_query_top:
  "\<exists>rows. post_runs_query (Some t) runs stps = Response 200 (StepRows rows)
     \<and> length rows = min 100 (length (matching t runs stps))
     \<and> mset rows \<subseteq># mset (matching t runs stps)
     \<and> sorted_wrt (\<lambda>x y. elimination_rate y \<le> elimination_rate x) rows
     \<and> (\<forall>x \<in> set rows. \<forall>y \<in># mset (matching t runs stps) - mset rows.
           elimination_rate y \<le> elimination_rate x)"
proof -
  let ?M = "matching t runs stps"
  let ?rows = "take 100 (sort_key desc_key ?M)"
  have sub: "set ?rows \<subseteq> set ?M"
    using set_take_subset [of 100 "sort_key desc_key ?M"] by simp
  have some: "\<exists>q. elimination_rate x = Some q" if "x \<in> set ?M" for x
    using matching_rate [OF that] by blast
  have le: "elimination_rate y \<le> elimination_rate x"
    if "x \<in> set ?M" "y \<in> set ?M" "desc_key x \<le> desc_key y" for x y
    using some [OF that(1)] some [OF that(2)] that(3) by (auto simp: desc_key_le)
  have 1: "post_runs_query (Some t) runs stps = Response 200 (StepRows ?rows)"
    by (simp add: post_runs_query_def elimination_query_eq)
  have 2: "length ?rows = min 100 (length ?M)"
    by simp
  have 3: "mset ?rows \<subseteq># mset ?M"
    by (rule take_sort_key_mset)
  have "sorted_wrt (\<lambda>x y. desc_key x \<le> desc_key y) ?rows"
    using take_sort_key_sorted [of desc_key 100 ?M] by (simp only: sorted_map)
  then have 4: "sorted_wrt (\<lambda>x y. elimination_rate y \<le> elimination_rate x) ?rows"
    by (rule sorted_wrt_mono_rel [rotated]) (use sub le in blast)
  have 5: "\<forall>x \<in> set ?rows. \<forall>y \<in># mset ?M - mset ?rows.
      elimination_rate y \<le> elimination_rate x"
  proof (intro ballI)
    fix x y
    assume x: "x \<in> set ?rows" and y: "y \<in># mset ?M - mset ?rows"
    have "y \<in> set ?M" using y by (meson in_diffD set_mset_mset [THEN equalityD1, THEN subsetD] in_multiset_in_set)
    moreover have "x \<in> set ?M" using x sub by blast
    ultimately show "elimination_rate y \<le> elimination_rate x"
      using take_sort_key_dominates [OF x y] le by blast
  qed
  show ?thesis using 1 2 3 4 5 by blast
qed

lemma meets_iff:
  "meets t s \<longleftrightarrow>
     (\<exists>ci co. step_row.candidates_in s = Some ci \<and> step_row.candidates_out s = Some co
        \<and> 0 < ci \<and> t \<le> 1 - of_int co / of_int ci)"
  by (auto simp: meets_def split: option.splits)

lemma elim_select_rate:
  "step_row.candidates_in s = Some ci \<Longrightarrow> step_row.candidates_out s = Some co \<Longrightarrow> 0 < ci \<Longrightarrow>
   elimination_rate (elim_select (r, s)) = Some (1 - of_int co / of_int ci)"
  by (simp add: elim_select_def rate_nullif_def nullif_def)

lemma recent_runs_props:
  "length (recent_runs runs) = min 50 (length runs)
   \<and> mset (recent_runs runs) \<subseteq># mset runs
   \<and> sorted_wrt (\<lambda>x y. run_row.started_at y \<le> run_row.started_at x) (recent_runs runs)
   \<and> (\<forall>x \<in> set (recent_runs runs). \<forall>y \<in># mset runs - mset (recent_runs runs).
         run_row.started_at y \<le> run_row.started_at x)"
proof -
  let ?g = "\<lambda>r. - run_row.started_at r"
  have "sorted_wrt (\<lambda>x y. ?g x \<le> ?g y) (recent_runs runs)"
    unfolding recent_runs_def using take_sort_key_sorted [of ?g 50 runs]
    by (simp only: sorted_map)
  then have s: "sorted_wrt (\<lambda>x y. run_row.started_at y \<le> run_row.started_at x) (recent_runs runs)"
    by simp
  have d: "\<forall>x \<in> set (recent_runs runs). \<forall>y \<in># mset runs - mset (recent_runs runs).
         run_row.started_at y \<le> run_row.started_at x"
    unfolding recent_runs_def using take_sort_key_dominates [of _ 50 ?g runs] by fastforce
  show ?thesis
    using s d take_sort_key_mset [of 50 ?g runs] by (simp add: recent_runs_def)
qed

text \<open>
  C4. With \<^verbatim>\<open>minEliminationRate\<close> present, \<^verbatim>\<open>POST /runs/query\<close> always answers 200, and its
  rows are taken from the steps that have both counts, \<^verbatim>\<open>candidates_in > 0\<close> and a rate
  \<open>1 - candidates_out / candidates_in\<close> of at least the threshold, each joined with the
  identifier, pipeline name and start time of its run: all of them when there are at most
  100, otherwise 100 of them, none with a lower rate than a step left out; the rows are in
  descending order of rate (rates are compared as optional values; every row has one). A
  step whose \<^verbatim>\<open>candidates_in\<close> is 0 or whose counts are missing is never among them and
  causes no error. With \<^verbatim>\<open>minEliminationRate\<close> absent the answer holds the runs with the
  latest start times, at most 50, latest first.
\<close>

theorem post_runs_query_result:
  "(\<exists>rows. post_runs_query (Some t) runs stps = Response 200 (StepRows rows)
     \<and> length rows = min 100 (length (matching t runs stps))
     \<and> mset rows \<subseteq># mset (matching t runs stps)
     \<and> sorted_wrt (\<lambda>x y. elimination_rate y \<le> elimination_rate x) rows
     \<and> (\<forall>x \<in> set rows. \<forall>y \<in># mset (matching t runs stps) - mset rows.
           elimination_rate y \<le> elimination_rate x))
   \<and> (x \<in> set (matching t runs stps) \<longleftrightarrow>
        (\<exists>r \<in> set runs. \<exists>s \<in> set stps.
           run_row.id r = step_row.run_id s \<and> meets t s \<and> x = elim_select (r, s)))
   \<and> (meets t s \<longleftrightarrow>
        (\<exists>ci co. step_row.candidates_in s = Some ci \<and> step_row.candidates_out s = Some co
           \<and> 0 < ci \<and> t \<le> 1 - of_int co / of_int ci))
   \<and> (meets t s \<longrightarrow>
        (\<exists>ci co. step_row.candidates_in s = Some ci \<and> step_row.candidates_out s = Some co
           \<and> elimination_rate (elim_select (r, s)) = Some (1 - of_int co / of_int ci)))
   \<and> elim_row.run_id (elim_select (r, s)) = run_row.id r
   \<and> elim_row.pipeline_name (elim_select (r, s)) = run_row.pipeline_name r
   \<and> elim_row.started_at (elim_select (r, s)) = run_row.started_at r
   \<and> (\<exists>rows. post_runs_query None runs stps = Response 200 (RunRows rows)
     \<and> length rows = min 50 (length runs)
     \<and> mset rows \<subseteq># mset runs
     \<and> sorted_wrt (\<lambda>x y. run_row.started_at y \<le> run_row.started_at x) rows
     \<and> (\<forall>x \<in> set rows. \<forall>y \<in># mset runs - mset rows.
           run_row.started_at y \<le> run_row.started_at x))"
proof -
  have a: "meets t s \<longrightarrow>
        (\<exists>ci co. step_row.candidates_in s = Some ci \<and> step_row.candidates_out s = Some co
           \<and> elimination_rate (elim_select (r, s)) = Some (1 - of_int co / of_int ci))"
    using elim_select_rate [of s _ _ r] by (auto simp: meets_iff)
  have b: "elim_row.run_id (elim_select (r, s)) = run_row.id r
     \<and> elim_row.pipeline_name (elim_select (r, s)) = run_row.pipeline_name r
     \<and> elim_row.started_at (elim_select (r, s)) = run_row.started_at r"
    by (simp add: elim_select_def)
  have c: "\<exists>rows. post_runs_query None runs stps = Response 200 (RunRows rows)
     \<and> length rows = min 50 (length runs)
     \<and> mset rows \<subseteq># mset runs
     \<and> sorted_wrt (\<lambda>x y. run_row.started_at y \<le> run_row.started_at x) rows
     \<and> (\<forall>x \<in> set rows. \<forall>y \<in># mset runs - mset rows.
           run_row.started_at y \<le> run_row.started_at x)"
    using recent_runs_props [of runs] by (simp add: post_runs_query_def)
  show ?thesis
    using elimination_query_top [of t runs stps] set_matching [of x t runs stps] meets_iff [of t s] a b c
    by blast
qed

lemma demo_matching:
  "matching (9 / 10) [demo_run_row] demo_step_rows =
     [elim_select (demo_run_row, demo_step_row ''filter_price'' 1 ''filter'' (Some 5000) (Some 450)),
      elim_select (demo_run_row, demo_step_row ''filter_rating'' 2 ''filter'' (Some 450) (Some 30))]"
  by (simp add: matching_def joined_def demo_step_rows_def demo_run_row_def demo_step_row_def
      meets_def)

lemma demo_rates:
  "elimination_rate (elim_select (demo_run_row, demo_step_row ''filter_price'' 1 ''filter'' (Some 5000) (Some 450))) = Some (91 / 100)"
  "elimination_rate (elim_select (demo_run_row, demo_step_row ''filter_rating'' 2 ''filter'' (Some 450) (Some 30))) = Some (14 / 15)"
  by (simp_all add: elim_select_def rate_nullif_def nullif_def demo_step_row_def)

lemma demo_query:
  "post_runs_query (Some (9 / 10)) [demo_run_row] demo_step_rows =
     Response 200 (StepRows
       [elim_select (demo_run_row,
          demo_step_row ''filter_rating'' 2 ''filter'' (Some 450) (Some 30)),
        elim_select (demo_run_row,
          demo_step_row ''filter_price'' 1 ''filter'' (Some 5000) (Some 450))])"
  by (simp add: post_runs_query_def elimination_query_eq demo_matching desc_key_def demo_rates)

lemma demo_meets:
  "meets (9 / 10) (demo_step_row ''filter_price'' 1 ''filter'' (Some 5000) (Some 450))"
  "\<not> meets (9 / 10) (demo_step_row ''filter_empty'' 3 ''filter'' (Some 0) (Some 0))"
  "\<not> meets (9 / 10) (demo_step_row ''search'' 0 ''api'' None (Some 5000))"
  by (simp_all add: meets_def demo_step_row_def)

lemma demo_recent:
  "post_runs_query None [demo_run_row] demo_step_rows = Response 200 (RunRows [demo_run_row])"
  by (simp add: post_runs_query_def recent_runs_def)

theorem post_runs_query_result_witness:
  "post_runs_query (Some (9 / 10)) [demo_run_row] demo_step_rows =
     Response 200 (StepRows
       [elim_select (demo_run_row,
          demo_step_row ''filter_rating'' 2 ''filter'' (Some 450) (Some 30)),
        elim_select (demo_run_row,
          demo_step_row ''filter_price'' 1 ''filter'' (Some 5000) (Some 450))])
   \<and> meets (9 / 10) (demo_step_row ''filter_price'' 1 ''filter'' (Some 5000) (Some 450))
   \<and> elimination_rate (elim_select (demo_run_row,
        demo_step_row ''filter_price'' 1 ''filter'' (Some 5000) (Some 450))) = Some (91 / 100)
   \<and> \<not> meets (9 / 10) (demo_step_row ''filter_empty'' 3 ''filter'' (Some 0) (Some 0))
   \<and> \<not> meets (9 / 10) (demo_step_row ''search'' 0 ''api'' None (Some 5000))
   \<and> post_runs_query None [demo_run_row] demo_step_rows = Response 200 (RunRows [demo_run_row])"
  using post_runs_query_result [of "9 / 10" "[demo_run_row]" demo_step_rows
          "elim_select (demo_run_row,
             demo_step_row ''filter_price'' 1 ''filter'' (Some 5000) (Some 450))"
          "demo_step_row ''filter_price'' 1 ''filter'' (Some 5000) (Some 450)" demo_run_row]
    demo_query demo_meets demo_recent demo_rates
  by simp

end
